theory Spec2Isabelle
  imports Main "HOL-Library.Multiset"
begin

section \<open>JavaScript values as the services read them\<close>

text \<open>
  The export pipeline of ghl-conversation-export: the paginated fetchers and the
  history aggregator of \<^verbatim>\<open>services/conversations.js\<close>, the job controller and
  date filter of \<^verbatim>\<open>index.js\<close>, and the document builder of
  \<^verbatim>\<open>services/pdf.js\<close>.

  A JSON value whose truthiness the code tests is a \<open>jsval\<close>; an optional
  string field is a \<open>string option\<close> (\<open>None\<close> for \<^verbatim>\<open>undefined\<close> and
  \<^verbatim>\<open>null\<close>). \<^verbatim>\<open>a || b\<close> on such fields is \<open>js_or\<close>.
\<close>

datatype jsval = JUndefined | JNull | JBool bool | JNum int | JStr string | JObj string

fun truthy :: "jsval \<Rightarrow> bool" where
  "truthy JUndefined = False"
| "truthy JNull = False"
| "truthy (JBool b) = b"
| "truthy (JNum n) = (n \<noteq> 0)"
| "truthy (JStr s) = (s \<noteq> [])"
| "truthy (JObj _) = True"

fun truthy_str :: "string option \<Rightarrow> bool" where
  "truthy_str None = False"
| "truthy_str (Some s) = (s \<noteq> [])"

definition js_or :: "string option \<Rightarrow> string option \<Rightarrow> string option" where
  "js_or a b = (if truthy_str a then a else b)"

section \<open>Data model\<close>

datatype attachment = AttStr string | AttObj "string option" "string option"

text \<open>
  A message as the upstream returns it. \<open>dateAdded\<close> is the instant
  \<^verbatim>\<open>new Date(m.dateAdded)\<close> denotes, in milliseconds since the epoch, and
  \<open>None\<close> when that is an invalid date: the field is missing or does not parse.
  \<open>transcription\<close> is \<open>None\<close> while the object has no such field.
\<close>

record message =
  msg_id :: "string option"
  messageType :: "string option"
  msg_type :: "string option"
  contentType :: "string option"
  msg_status :: "string option"
  direction :: "string option"
  dateAdded :: "int option"
  body :: "string option"
  msg_text :: "string option"
  msg_message :: "string option"
  subject :: "string option"
  msg_from :: "string option"
  msg_to :: "string option"
  html :: "string option"
  callDuration :: "int option"
  callStatus :: "string option"
  transcription :: "jsval option"
  attachments :: "attachment list option"

record conversation =
  conv_id :: "string option"
  conv_lastMessageId :: "string option"

text \<open>
  \<^verbatim>\<open>data.conversations\<close> and \<^verbatim>\<open>data.messages\<close> of a response: an array, nothing,
  or an object that is not an array (for messages, one that may hold the array under
  its own \<^verbatim>\<open>messages\<close> key).
\<close>

datatype conversations_field = ConvArr "conversation list" | ConvAbsent | ConvOther

datatype messages_field = MsgArr "message list" | MsgAbsent | MsgNested "message list option"

record response_data =
  data_conversations :: conversations_field
  data_messages :: messages_field
  data_lastMessageId :: "string option"
  data_nextPage :: jsval
  data_transcription :: jsval

datatype request =
    SearchConversations string string "string option"
  | GetMessages "string option" "string option"
  | GetRecording "string option" string

text \<open>
  An error thrown by a call: the HTTP status of \<^verbatim>\<open>err.response\<close> when there is
  one, and \<^verbatim>\<open>err.message\<close>.
\<close>

datatype js_error = AxiosError (err_status: "nat option") (err_message: string)

text \<open>
  \<^verbatim>\<open>ghl.apiCall(locationId, method, url)\<close> is the injected capability: it acts on
  the world \<open>'w\<close> (the upstream and the token store) and either throws or returns
  the response's \<^verbatim>\<open>data\<close>. Every call of the services is a GET, so a request is
  the URL's parts.
\<close>

type_synonym 'w apiCall = "'w \<Rightarrow> string \<Rightarrow> request \<Rightarrow> (js_error + response_data) \<times> 'w"

datatype progress =
    PStarting
  | PConversations nat
  | PMessages "string option" nat
  | PFetchingMessages nat nat "nat option"
  | PTranscriptions nat nat
  | PGeneratingPdf nat
  | PComplete nat

type_synonym 'w onProgress = "(progress \<Rightarrow> 'w \<Rightarrow> 'w) option"

definition notify :: "'w onProgress \<Rightarrow> progress \<Rightarrow> 'w \<Rightarrow> 'w" where
  "notify onProgress p w = (case onProgress of None \<Rightarrow> w | Some f \<Rightarrow> f p w)"

section \<open>Paginated fetchers (conversations.js)\<close>

text \<open>
  The cursor sent with a page request: \<^verbatim>\<open>if (lastMessageId) params.set(...)\<close>.
\<close>

definition cursor_param :: "string option \<Rightarrow> string option" where
  "cursor_param lastMessageId = (if truthy_str lastMessageId then lastMessageId else None)"

subsection \<open>The revision with the cursor guard\<close>

definition conversations_batch :: "response_data \<Rightarrow> conversation list" where
  "conversations_batch d = (case data_conversations d of ConvArr xs \<Rightarrow> xs | _ \<Rightarrow> [])"

definition conversations_nextId :: "response_data \<Rightarrow> conversation list \<Rightarrow> string option" where
  "conversations_nextId d batch =
     js_or (data_lastMessageId d) (js_or (conv_lastMessageId (last batch)) (conv_id (last batch)))"

partial_function (option) fetchAllConversations_loop ::
  "'w apiCall \<Rightarrow> 'w onProgress \<Rightarrow> string \<Rightarrow> string \<Rightarrow> conversation list \<Rightarrow> string option
    \<Rightarrow> 'w \<Rightarrow> ((js_error + conversation list) \<times> 'w) option"
where
  "fetchAllConversations_loop api onProgress locationId contactId conversations lastMessageId w =
     (case api w locationId (SearchConversations locationId contactId (cursor_param lastMessageId)) of
        (Inl err, w1) \<Rightarrow> Some (Inl err, w1)
      | (Inr d, w1) \<Rightarrow>
          (let batch = conversations_batch d;
               conversations' = conversations @ batch;
               w2 = notify onProgress (PConversations (length conversations')) w1
           in if batch = [] then Some (Inr conversations', w2)
              else (let nextId = conversations_nextId d batch
                    in if \<not> truthy_str nextId \<or> nextId = lastMessageId
                       then Some (Inr conversations', w2)
                       else fetchAllConversations_loop api onProgress locationId contactId
                              conversations' nextId w2)))"

definition fetchAllConversations ::
  "'w apiCall \<Rightarrow> 'w onProgress \<Rightarrow> string \<Rightarrow> string \<Rightarrow> 'w
    \<Rightarrow> ((js_error + conversation list) \<times> 'w) option" where
  "fetchAllConversations api onProgress locationId contactId w =
     fetchAllConversations_loop api onProgress locationId contactId [] None w"

definition messages_batch :: "response_data \<Rightarrow> message list" where
  "messages_batch d =
     (case data_messages d of
        MsgArr xs \<Rightarrow> xs
      | MsgNested (Some xs) \<Rightarrow> xs
      | MsgNested None \<Rightarrow> []
      | MsgAbsent \<Rightarrow> [])"

definition messages_nextId :: "response_data \<Rightarrow> message list \<Rightarrow> string option" where
  "messages_nextId d batch = js_or (data_lastMessageId d) (msg_id (last batch))"

partial_function (option) fetchAllMessages_loop ::
  "'w apiCall \<Rightarrow> 'w onProgress \<Rightarrow> string \<Rightarrow> string option \<Rightarrow> message list \<Rightarrow> string option
    \<Rightarrow> 'w \<Rightarrow> ((js_error + message list) \<times> 'w) option"
where
  "fetchAllMessages_loop api onProgress locationId conversationId messages lastMessageId w =
     (case api w locationId (GetMessages conversationId (cursor_param lastMessageId)) of
        (Inl err, w1) \<Rightarrow> Some (Inl err, w1)
      | (Inr d, w1) \<Rightarrow>
          (let batch = messages_batch d;
               messages' = messages @ batch;
               w2 = notify onProgress (PMessages conversationId (length messages')) w1
           in if batch = [] then Some (Inr messages', w2)
              else (let nextId = messages_nextId d batch
                    in if \<not> truthy_str nextId \<or> nextId = lastMessageId
                       then Some (Inr messages', w2)
                       else fetchAllMessages_loop api onProgress locationId conversationId
                              messages' nextId w2)))"

definition fetchAllMessages ::
  "'w apiCall \<Rightarrow> 'w onProgress \<Rightarrow> string \<Rightarrow> string option \<Rightarrow> 'w
    \<Rightarrow> ((js_error + message list) \<times> 'w) option" where
  "fetchAllMessages api onProgress locationId conversationId w =
     fetchAllMessages_loop api onProgress locationId conversationId [] None w"

subsection \<open>The revision that trusts the has-next-page flag\<close>

text \<open>
  The other revision of the two fetchers in the repository reads the batch as
  \<^verbatim>\<open>data.conversations || []\<close> and leaves the loop on
  \<^verbatim>\<open>batch.length === 0 || !data.nextPage\<close>; it never compares cursors. Spreading
  an object that is not an array throws a TypeError, which has no
  \<^verbatim>\<open>response\<close>.
\<close>

definition not_iterable :: js_error where
  "not_iterable = AxiosError None ''batch is not iterable''"

definition conversations_batch_flag :: "response_data \<Rightarrow> js_error + conversation list" where
  "conversations_batch_flag d =
     (case data_conversations d of
        ConvArr xs \<Rightarrow> Inr xs
      | ConvAbsent \<Rightarrow> Inr []
      | ConvOther \<Rightarrow> Inl not_iterable)"

partial_function (option) fetchAllConversations_flag_loop ::
  "'w apiCall \<Rightarrow> 'w onProgress \<Rightarrow> string \<Rightarrow> string \<Rightarrow> conversation list \<Rightarrow> string option
    \<Rightarrow> 'w \<Rightarrow> ((js_error + conversation list) \<times> 'w) option"
where
  "fetchAllConversations_flag_loop api onProgress locationId contactId conversations lastMessageId w =
     (case api w locationId (SearchConversations locationId contactId (cursor_param lastMessageId)) of
        (Inl err, w1) \<Rightarrow> Some (Inl err, w1)
      | (Inr d, w1) \<Rightarrow>
          (case conversations_batch_flag d of
             Inl err \<Rightarrow> Some (Inl err, w1)
           | Inr batch \<Rightarrow>
               (let conversations' = conversations @ batch;
                    w2 = notify onProgress (PConversations (length conversations')) w1
                in if batch = [] \<or> \<not> truthy (data_nextPage d)
                   then Some (Inr conversations', w2)
                   else fetchAllConversations_flag_loop api onProgress locationId contactId
                          conversations'
                          (js_or (conv_lastMessageId (last batch)) (conv_id (last batch))) w2)))"

definition fetchAllConversations_flag ::
  "'w apiCall \<Rightarrow> 'w onProgress \<Rightarrow> string \<Rightarrow> string \<Rightarrow> 'w
    \<Rightarrow> ((js_error + conversation list) \<times> 'w) option" where
  "fetchAllConversations_flag api onProgress locationId contactId w =
     fetchAllConversations_flag_loop api onProgress locationId contactId [] None w"

definition messages_batch_flag :: "response_data \<Rightarrow> js_error + message list" where
  "messages_batch_flag d =
     (case data_messages d of
        MsgArr xs \<Rightarrow> Inr xs
      | MsgAbsent \<Rightarrow> Inr []
      | MsgNested _ \<Rightarrow> Inl not_iterable)"

partial_function (option) fetchAllMessages_flag_loop ::
  "'w apiCall \<Rightarrow> 'w onProgress \<Rightarrow> string \<Rightarrow> string option \<Rightarrow> message list \<Rightarrow> string option
    \<Rightarrow> 'w \<Rightarrow> ((js_error + message list) \<times> 'w) option"
where
  "fetchAllMessages_flag_loop api onProgress locationId conversationId messages lastMessageId w =
     (case api w locationId (GetMessages conversationId (cursor_param lastMessageId)) of
        (Inl err, w1) \<Rightarrow> Some (Inl err, w1)
      | (Inr d, w1) \<Rightarrow>
          (case messages_batch_flag d of
             Inl err \<Rightarrow> Some (Inl err, w1)
           | Inr batch \<Rightarrow>
               (let messages' = messages @ batch;
                    w2 = notify onProgress (PMessages conversationId (length messages')) w1
                in if batch = [] \<or> \<not> truthy (data_nextPage d)
                   then Some (Inr messages', w2)
                   else fetchAllMessages_flag_loop api onProgress locationId conversationId
                          messages' (js_or (data_lastMessageId d) (msg_id (last batch))) w2)))"

definition fetchAllMessages_flag ::
  "'w apiCall \<Rightarrow> 'w onProgress \<Rightarrow> string \<Rightarrow> string option \<Rightarrow> 'w
    \<Rightarrow> ((js_error + message list) \<times> 'w) option" where
  "fetchAllMessages_flag api onProgress locationId conversationId w =
     fetchAllMessages_flag_loop api onProgress locationId conversationId [] None w"

section \<open>History aggregator (conversations.js)\<close>

definition fetchTranscription ::
  "'w apiCall \<Rightarrow> string \<Rightarrow> string option \<Rightarrow> 'w \<Rightarrow> (js_error + jsval) \<times> 'w" where
  "fetchTranscription api locationId messageId w =
     (case api w locationId (GetRecording messageId locationId) of
        (Inr d, w1) \<Rightarrow>
          (Inr (if truthy (data_transcription d) then data_transcription d else JNull), w1)
      | (Inl err, w1) \<Rightarrow>
          (if err_status err = Some 404 \<or> err_status err = Some 422 then (Inr JNull, w1)
           else (Inl err, w1)))"

text \<open>Stage 2: the messages of every conversation, in fetch order.\<close>

fun fetchMessagesOfEach ::
  "'w apiCall \<Rightarrow> 'w onProgress \<Rightarrow> string \<Rightarrow> nat \<Rightarrow> nat \<Rightarrow> conversation list \<Rightarrow> message list
    \<Rightarrow> 'w \<Rightarrow> ((js_error + message list) \<times> 'w) option" where
  "fetchMessagesOfEach api onProgress locationId n i [] allMessages w =
     Some (Inr allMessages, w)"
| "fetchMessagesOfEach api onProgress locationId n i (conv # rest) allMessages w =
     (case fetchAllMessages api onProgress locationId (conv_id conv) w of
        None \<Rightarrow> None
      | Some (Inl err, w1) \<Rightarrow> Some (Inl err, w1)
      | Some (Inr messages, w1) \<Rightarrow>
          (let allMessages' = allMessages @ messages;
               w2 = notify onProgress
                      (PFetchingMessages n (i + 1) (Some (length allMessages'))) w1
           in fetchMessagesOfEach api onProgress locationId n (i + 1) rest allMessages' w2))"

text \<open>
  Stage 3. \<^verbatim>\<open>callMessages\<close> holds the very objects of \<^verbatim>\<open>allMessages\<close> that
  pass the filter, so it is the list of their positions, and
  \<^verbatim>\<open>msg.transcription = transcription\<close> updates \<^verbatim>\<open>allMessages\<close> in place.
\<close>

definition isCompletedCall :: "message \<Rightarrow> bool" where
  "isCompletedCall m \<longleftrightarrow>
     messageType m = Some ''CALL'' \<and> msg_status m = Some ''completed'' \<and> truthy_str (direction m)"

definition callMessages :: "message list \<Rightarrow> nat list" where
  "callMessages allMessages = filter (\<lambda>k. isCompletedCall (allMessages ! k)) [0..<length allMessages]"

fun fetchTranscriptions ::
  "'w apiCall \<Rightarrow> 'w onProgress \<Rightarrow> string \<Rightarrow> nat \<Rightarrow> nat \<Rightarrow> nat list \<Rightarrow> message list
    \<Rightarrow> 'w \<Rightarrow> (js_error + message list) \<times> 'w" where
  "fetchTranscriptions api onProgress locationId n i [] allMessages w = (Inr allMessages, w)"
| "fetchTranscriptions api onProgress locationId n i (k # ks) allMessages w =
     (case fetchTranscription api locationId (msg_id (allMessages ! k)) w of
        (Inl err, w1) \<Rightarrow> (Inl err, w1)
      | (Inr t, w1) \<Rightarrow>
          (let allMessages' =
                 (if truthy t
                  then allMessages[k := (allMessages ! k)\<lparr>transcription := Some t\<rparr>]
                  else allMessages);
               w2 = notify onProgress (PTranscriptions n (i + 1)) w1
           in fetchTranscriptions api onProgress locationId n (i + 1) ks allMessages' w2))"

text \<open>
  Stage 4. \<^verbatim>\<open>Array.prototype.sort\<close> with a comparator is a stable sort: an
  element moves in front of another only when the comparator is positive for the
  pair. A comparator result \<^verbatim>\<open>NaN\<close> (here \<open>None\<close>) is read as 0. The
  comparator of stage 4 subtracts two dates, which gives \<^verbatim>\<open>NaN\<close> as soon as one
  of them is invalid. Where the comparator is a consistent order every stable sort
  returns the same list; where it is not, the list is the one a stable insertion from
  the right leaves.
\<close>

definition sort_compare :: "('a \<Rightarrow> 'a \<Rightarrow> int option) \<Rightarrow> 'a \<Rightarrow> 'a \<Rightarrow> int" where
  "sort_compare cmp x y = (case cmp x y of None \<Rightarrow> 0 | Some v \<Rightarrow> v)"

fun insert_by :: "('a \<Rightarrow> 'a \<Rightarrow> int option) \<Rightarrow> 'a \<Rightarrow> 'a list \<Rightarrow> 'a list" where
  "insert_by cmp x [] = [x]"
| "insert_by cmp x (y # ys) =
     (if sort_compare cmp x y \<le> 0 then x # y # ys else y # insert_by cmp x ys)"

definition array_sort :: "('a \<Rightarrow> 'a \<Rightarrow> int option) \<Rightarrow> 'a list \<Rightarrow> 'a list" where
  "array_sort cmp xs = foldr (insert_by cmp) xs []"

definition byDateAdded :: "message \<Rightarrow> message \<Rightarrow> int option" where
  "byDateAdded a b =
     (case dateAdded a of
        None \<Rightarrow> None
      | Some x \<Rightarrow> (case dateAdded b of None \<Rightarrow> None | Some y \<Rightarrow> Some (x - y)))"

text \<open>Stages 1 and 2: the conversations, then the messages of each.\<close>

definition collectMessages ::
  "'w apiCall \<Rightarrow> 'w onProgress \<Rightarrow> string \<Rightarrow> string \<Rightarrow> 'w
    \<Rightarrow> ((js_error + message list) \<times> 'w) option" where
  "collectMessages api onProgress locationId contactId w =
     (case fetchAllConversations api onProgress locationId contactId w of
        None \<Rightarrow> None
      | Some (Inl err, w1) \<Rightarrow> Some (Inl err, w1)
      | Some (Inr conversations, w1) \<Rightarrow>
          (let w2 = notify onProgress (PFetchingMessages (length conversations) 0 None) w1
           in fetchMessagesOfEach api onProgress locationId (length conversations) 0
                conversations [] w2))"

text \<open>Stages 1 to 3: the accumulated sequence before it is sorted.\<close>

definition collectHistory ::
  "'w apiCall \<Rightarrow> 'w onProgress \<Rightarrow> string \<Rightarrow> string \<Rightarrow> 'w
    \<Rightarrow> ((js_error + message list) \<times> 'w) option" where
  "collectHistory api onProgress locationId contactId w =
     (case collectMessages api onProgress locationId contactId w of
        None \<Rightarrow> None
      | Some (Inl err, w3) \<Rightarrow> Some (Inl err, w3)
      | Some (Inr allMessages, w3) \<Rightarrow>
          Some (fetchTranscriptions api onProgress locationId
                  (length (callMessages allMessages)) 0 (callMessages allMessages)
                  allMessages w3))"

definition fetchContactHistory ::
  "'w apiCall \<Rightarrow> 'w onProgress \<Rightarrow> string \<Rightarrow> string \<Rightarrow> 'w
    \<Rightarrow> ((js_error + message list) \<times> 'w) option" where
  "fetchContactHistory api onProgress locationId contactId w =
     (case collectHistory api onProgress locationId contactId w of
        None \<Rightarrow> None
      | Some (Inl err, w1) \<Rightarrow> Some (Inl err, w1)
      | Some (Inr allMessages, w1) \<Rightarrow> Some (Inr (array_sort byDateAdded allMessages), w1))"

section \<open>Document builder (pdf.js)\<close>

text \<open>
  PDFKit and the formatting libraries are not part of the repository. The document
  is what the renderer asks PDFKit for: a list of pages, each the texts placed on it
  with the position of the cursor at that moment, the page being written, the cursor
  \<open>doc_y\<close> (in points) and the font. How far a text or \<^verbatim>\<open>moveDown\<close> moves the
  cursor, and what the locale and HTML formatters print, is given by \<open>lib\<close>. Lines
  and colours draw no text and leave the cursor alone; they are left out.
\<close>

record lib =
  text_height :: "string \<Rightarrow> nat \<Rightarrow> string \<Rightarrow> int"
  line_height :: "string \<Rightarrow> nat \<Rightarrow> nat \<Rightarrow> int"
  formatDate :: "int option \<Rightarrow> string"
  formatTime :: "int option \<Rightarrow> string"
  formatFullDate :: "int \<Rightarrow> string"
  convert :: "string \<Rightarrow> string"

type_synonym page = "(int \<times> string) list"

record pdf_doc =
  pages :: "page list"
  cur :: nat
  doc_y :: int
  doc_font :: string
  doc_fontSize :: nat

definition MARGIN :: int where "MARGIN = 50"
definition PAGE_WIDTH :: int where "PAGE_WIDTH = 612"
definition PAGE_HEIGHT :: int where "PAGE_HEIGHT = 792"

definition new_PDFDocument :: pdf_doc where
  "new_PDFDocument =
     \<lparr>pages = [[]], cur = 0, doc_y = MARGIN, doc_font = ''Helvetica'', doc_fontSize = 12\<rparr>"

definition addPage :: "'a pdf_doc_scheme \<Rightarrow> 'a pdf_doc_scheme" where
  "addPage d = d\<lparr>pages := pages d @ [[]], cur := length (pages d), doc_y := MARGIN\<rparr>"

definition switchToPage :: "nat \<Rightarrow> 'a pdf_doc_scheme \<Rightarrow> 'a pdf_doc_scheme" where
  "switchToPage i d = d\<lparr>cur := i\<rparr>"

definition bufferedPageRange_count :: "'a pdf_doc_scheme \<Rightarrow> nat" where
  "bufferedPageRange_count d = length (pages d)"

definition fontSize :: "nat \<Rightarrow> 'a pdf_doc_scheme \<Rightarrow> 'a pdf_doc_scheme" where
  "fontSize n d = d\<lparr>doc_fontSize := n\<rparr>"

definition font :: "string \<Rightarrow> 'a pdf_doc_scheme \<Rightarrow> 'a pdf_doc_scheme" where
  "font f d = d\<lparr>doc_font := f\<rparr>"

text \<open>\<^verbatim>\<open>doc.moveDown(k / 10)\<close>.\<close>

definition moveDown :: "lib \<Rightarrow> nat \<Rightarrow> 'a pdf_doc_scheme \<Rightarrow> 'a pdf_doc_scheme" where
  "moveDown L k d = d\<lparr>doc_y := doc_y d + line_height L (doc_font d) (doc_fontSize d) k\<rparr>"

text \<open>
  \<^verbatim>\<open>doc.text(s, x, doc.y, options)\<close> and \<^verbatim>\<open>doc.text(s, options)\<close> write at the
  cursor, on the page being written, and leave the cursor below the text. With
  \<^verbatim>\<open>continued: true\<close> the cursor stays on the line. PDFKit wraps such a text and
  carries what no longer fits on the page over to a new one; how much fits it
  decides from its font metrics, and that flow is not modelled: the text is recorded
  on the page being written.
\<close>

definition doc_text :: "lib \<Rightarrow> string \<Rightarrow> 'a pdf_doc_scheme \<Rightarrow> 'a pdf_doc_scheme" where
  "doc_text L s d =
     d\<lparr>pages := (pages d)[cur d := pages d ! cur d @ [(doc_y d, s)]],
       doc_y := doc_y d + text_height L (doc_font d) (doc_fontSize d) s\<rparr>"

text \<open>
  \<^verbatim>\<open>doc.text(s, x, y, options)\<close> with a position of the code's own. PDFKit moves
  the cursor there and its line wrapper makes sure the line is on the page: when
  the cursor, or the end of one line from it, lies past the bottom margin
  (\<^verbatim>\<open>page.maxY()\<close>, the page height less the margin), it continues on a new
  page, which \<^verbatim>\<open>addPage\<close> puts after the last page of the document, and the text
  is written at the top margin of that page.
\<close>

definition text_at :: "lib \<Rightarrow> string \<Rightarrow> int \<Rightarrow> 'a pdf_doc_scheme \<Rightarrow> 'a pdf_doc_scheme" where
  "text_at L s y0 d =
     (let maxY = PAGE_HEIGHT - MARGIN;
          nextY = y0 + line_height L (doc_font d) (doc_fontSize d) 10
      in doc_text L s (if y0 > maxY \<or> nextY > maxY then addPage d else d\<lparr>doc_y := y0\<rparr>))"

definition text_continued :: "string \<Rightarrow> 'a pdf_doc_scheme \<Rightarrow> 'a pdf_doc_scheme" where
  "text_continued s d = d\<lparr>pages := (pages d)[cur d := pages d ! cur d @ [(doc_y d, s)]]\<rparr>"

definition run :: "('s \<Rightarrow> 's) list \<Rightarrow> 's \<Rightarrow> 's" where
  "run ops d = fold (\<lambda>f. f) ops d"

definition run_if :: "bool \<Rightarrow> ('s \<Rightarrow> 's) list \<Rightarrow> 's \<Rightarrow> 's" where
  "run_if c ops d = (if c then run ops d else d)"

subsection \<open>Formatting\<close>

definition or_default :: "string option \<Rightarrow> string \<Rightarrow> string" where
  "or_default a dflt = (case a of None \<Rightarrow> dflt | Some s \<Rightarrow> if s = [] then dflt else s)"

fun string_of_nat :: "nat \<Rightarrow> string" where
  "string_of_nat n =
     (if n < 10 then [char_of (48 + n)] else string_of_nat (n div 10) @ [char_of (48 + n mod 10)])"

declare string_of_nat.simps [simp del]

text \<open>\<^verbatim>\<open>n.toLocaleString()\<close> for a count, in the en-US locale of the other formatters.\<close>

fun toLocaleString :: "nat \<Rightarrow> string" where
  "toLocaleString n =
     (if n < 1000 then string_of_nat n
      else toLocaleString (n div 1000) @ '','' @
           (if n mod 1000 < 10 then ''00'' else if n mod 1000 < 100 then ''0'' else [])
           @ string_of_nat (n mod 1000))"

declare toLocaleString.simps [simp del]

text \<open>A duration is a whole number of seconds that a \<^verbatim>\<open>Number\<close> holds exactly.\<close>

definition formatDuration :: "int option \<Rightarrow> string" where
  "formatDuration seconds =
     (case seconds of
        None \<Rightarrow> ''0s''
      | Some sec \<Rightarrow>
          if sec \<le> 0 then ''0s''
          else (let m = nat sec div 60; s = nat sec mod 60
                in if m = 0 then string_of_nat s @ ''s''
                   else string_of_nat m @ ''m '' @ string_of_nat s @ ''s''))"

text \<open>
  The table \<^verbatim>\<open>TYPE_LABELS\<close>. The lookup \<^verbatim>\<open>map[type]\<close> is taken on the keys of the
  table itself; a type that names a property every object inherits is outside the
  model.
\<close>

definition type_labels :: "(string \<times> string) list" where
  "type_labels =
     [(''TYPE_SMS'', ''SMS''), (''TYPE_EMAIL'', ''Email''), (''TYPE_CALL'', ''Call''),
      (''TYPE_WHATSAPP'', ''WhatsApp''), (''TYPE_FB_MESSENGER'', ''Facebook''),
      (''TYPE_IG_DM'', ''Instagram''), (''TYPE_LIVE_CHAT'', ''Live Chat''),
      (''TYPE_CUSTOM_SMS'', ''SMS''), (''TYPE_CUSTOM_EMAIL'', ''Email'')]"

definition startsWith :: "string \<Rightarrow> string \<Rightarrow> bool" where
  "startsWith s p \<longleftrightarrow> take (length p) s = p"

text \<open>
  \<^verbatim>\<open>type.replace("TYPE_", "").replace(/_/g, " ")\<close> on a string that starts with
  the prefix.
\<close>

definition channelLabel :: "string option \<Rightarrow> string" where
  "channelLabel t =
     (case t of
        None \<Rightarrow> ''Message''
      | Some ty \<Rightarrow>
          if ty = [] then ''Message''
          else (case map_of type_labels ty of
                  Some l \<Rightarrow> l
                | None \<Rightarrow>
                    if startsWith ty ''TYPE_''
                    then map (\<lambda>c. if c = CHR ''_'' then CHR '' '' else c) (drop 5 ty)
                    else ty))"

definition messageTypeLabel :: "message \<Rightarrow> string" where
  "messageTypeLabel msg =
     (if messageType msg = Some ''CALL'' then ''Call''
      else if channelLabel (msg_type msg) \<noteq> [] then channelLabel (msg_type msg)
      else if channelLabel (contentType msg) \<noteq> [] then channelLabel (contentType msg)
      else ''Message'')"

definition getMessageBody :: "message \<Rightarrow> string" where
  "getMessageBody msg =
     (case js_or (body msg) (js_or (msg_text msg) (msg_message msg)) of
        None \<Rightarrow> [] | Some s \<Rightarrow> s)"

definition stripHtml :: "lib \<Rightarrow> string option \<Rightarrow> string" where
  "stripHtml L h = (case h of None \<Rightarrow> [] | Some s \<Rightarrow> if s = [] then [] else convert L s)"

record message_stats =
  dateRange :: string
  channels :: "string list"

definition EN_DASH :: string where
  "EN_DASH = [char_of (226::nat), char_of (128::nat), char_of (147::nat)]"

text \<open>A \<^verbatim>\<open>Set\<close> spread into an array: the distinct labels in first-seen order.\<close>

definition set_add :: "'a \<Rightarrow> 'a list \<Rightarrow> 'a list" where
  "set_add x acc = (if x \<in> set acc then acc else acc @ [x])"

definition getMessageStats :: "lib \<Rightarrow> message list \<Rightarrow> message_stats" where
  "getMessageStats L messages =
     (if length messages = 0 then \<lparr>dateRange = ''N/A'', channels = []\<rparr>
      else \<lparr>dateRange = formatDate L (dateAdded (hd messages)) @ '' '' @ EN_DASH @ '' '' @
                         formatDate L (dateAdded (last messages)),
            channels = fold (\<lambda>msg. set_add (messageTypeLabel msg)) messages []\<rparr>)"

subsection \<open>Cover page\<close>

record contact =
  contact_name :: "string option"
  contact_email :: "string option"
  contact_phone :: "string option"

fun join :: "string \<Rightarrow> string list \<Rightarrow> string" where
  "join sep [] = []"
| "join sep [x] = x"
| "join sep (x # y # ys) = x @ sep @ join sep (y # ys)"

definition stat_block :: "lib \<Rightarrow> string \<Rightarrow> string \<Rightarrow> 'a pdf_doc_scheme \<Rightarrow> 'a pdf_doc_scheme" where
  "stat_block L label v =
     run [fontSize 10, font ''Helvetica'', doc_text L label, moveDown L 2,
          fontSize 14, font ''Helvetica-Bold'', doc_text L v, moveDown L 10]"

text \<open>\<open>now\<close> is the instant of \<^verbatim>\<open>new Date()\<close>.\<close>

definition renderCoverPage ::
  "lib \<Rightarrow> int \<Rightarrow> contact \<Rightarrow> message list \<Rightarrow> 'a pdf_doc_scheme \<Rightarrow> 'a pdf_doc_scheme" where
  "renderCoverPage L now c messages =
     (let stats = getMessageStats L messages in
      run [moveDown L 40,
           fontSize 28, font ''Helvetica-Bold'', doc_text L ''CONVERSATION EXPORT'',
           moveDown L 10,
           moveDown L 20,
           fontSize 12, font ''Helvetica'', doc_text L ''Contact'',
           moveDown L 3,
           fontSize 20, font ''Helvetica-Bold'',
           doc_text L (or_default (contact_name c) ''Unknown Contact''),
           moveDown L 10,
           fontSize 11, font ''Helvetica'',
           run_if (truthy_str (contact_email c))
             [doc_text L (''Email: '' @ the (contact_email c)), moveDown L 3],
           run_if (truthy_str (contact_phone c))
             [doc_text L (''Phone: '' @ the (contact_phone c)), moveDown L 3],
           moveDown L 20,
           moveDown L 15,
           stat_block L ''Total Messages'' (toLocaleString (length messages)),
           stat_block L ''Date Range'' (dateRange stats),
           stat_block L ''Export Date'' (formatFullDate L now),
           run_if (length (channels stats) > 0)
             [moveDown L 5, fontSize 10, font ''Helvetica'',
              doc_text L (''Channels: '' @ join '', '' (channels stats))]])"

subsection \<open>Message blocks\<close>

text \<open>
  The two revisions of the renderer draw the same blocks and differ in a few
  constants: the direction tags, the separators, the attachment line, and the height
  \<^verbatim>\<open>checkPageBreak\<close> is asked for (a fixed 60 in one, an estimate from the body
  length in the other).
\<close>

record style =
  outboundLabel :: string
  inboundLabel :: string
  headerLead :: string
  headerSep :: string
  truncatedNote :: string
  attachmentLine :: "string \<Rightarrow> string"
  needed :: "message \<Rightarrow> int"

definition utf8 :: "nat list \<Rightarrow> string" where
  "utf8 bytes = map char_of bytes"

definition ARROW_RIGHT :: string where "ARROW_RIGHT = utf8 [226, 134, 146]"
definition ARROW_LEFT :: string where "ARROW_LEFT = utf8 [226, 134, 144]"
definition MIDDLE_DOT :: string where "MIDDLE_DOT = utf8 [194, 183]"
definition EM_DASH :: string where "EM_DASH = utf8 [226, 128, 148]"
definition PAPERCLIP :: string where "PAPERCLIP = utf8 [240, 159, 147, 142]"
definition DQUOTE :: string where "DQUOTE = utf8 [34]"

definition estimatedHeight :: "message \<Rightarrow> int" where
  "estimatedHeight msg =
     (let estimatedLines = (int (length (getMessageBody msg)) + 79) div 80 + 3
      in min (estimatedLines * 14 + 40) 200)"

definition style_plain :: style where
  "style_plain =
     \<lparr>outboundLabel = ''OUTBOUND'', inboundLabel = ''INBOUND'',
      headerLead = ''   '', headerSep = ''  -  '',
      truncatedNote = ''[Email truncated '' @ EM_DASH @ '' full content exceeds display limit]'',
      attachmentLine = (\<lambda>name. ''[attachment: '' @ name @ '']''),
      needed = (\<lambda>msg. 60)\<rparr>"

definition style_buffered :: style where
  "style_buffered =
     \<lparr>outboundLabel = ARROW_RIGHT @ '' OUTBOUND'', inboundLabel = ARROW_LEFT @ '' INBOUND'',
      headerLead = ''  '', headerSep = ''  '' @ MIDDLE_DOT @ ''  '',
      truncatedNote = ''[Email truncated '' @ EM_DASH @ '' full content exceeds display limit]'',
      attachmentLine = (\<lambda>name. PAPERCLIP @ '' '' @ name),
      needed = estimatedHeight\<rparr>"

text \<open>\<open>brk\<close> is what starts a new page: \<^verbatim>\<open>doc.addPage()\<close> or \<^verbatim>\<open>newPage(doc, ctx)\<close>.\<close>

definition checkPageBreak ::
  "('a pdf_doc_scheme \<Rightarrow> 'a pdf_doc_scheme) \<Rightarrow> int \<Rightarrow> 'a pdf_doc_scheme \<Rightarrow> 'a pdf_doc_scheme" where
  "checkPageBreak brk need d = (if doc_y d + need > PAGE_HEIGHT - MARGIN - 30 then brk d else d)"

definition last_segment :: "string \<Rightarrow> string" where
  "last_segment s = rev (takeWhile (\<lambda>c. c \<noteq> CHR ''/'') (rev s))"

definition attachment_name :: "attachment \<Rightarrow> string" where
  "attachment_name att =
     (case att of
        AttStr s \<Rightarrow> last_segment s
      | AttObj name url \<Rightarrow> or_default name (or_default url ''attachment''))"

definition renderAttachments :: "lib \<Rightarrow> style \<Rightarrow> message \<Rightarrow> 'a pdf_doc_scheme \<Rightarrow> 'a pdf_doc_scheme" where
  "renderAttachments L st msg d =
     (let atts = (case attachments msg of None \<Rightarrow> [] | Some xs \<Rightarrow> xs)
      in if length atts = 0 then d
         else run ([moveDown L 2, fontSize 9, font ''Helvetica-Oblique''] @
                   map (\<lambda>att. doc_text L (attachmentLine st (attachment_name att))) atts) d)"

definition renderTextMessage :: "lib \<Rightarrow> style \<Rightarrow> message \<Rightarrow> 'a pdf_doc_scheme \<Rightarrow> 'a pdf_doc_scheme" where
  "renderTextMessage L st msg d =
     (let b = getMessageBody msg
      in if b = [] then d
         else run [fontSize 10, font ''Helvetica'', doc_text L b, renderAttachments L st msg] d)"

definition email_body :: "lib \<Rightarrow> message \<Rightarrow> string" where
  "email_body L msg =
     (if truthy_str (html msg) \<or> truthy_str (body msg)
      then stripHtml L (js_or (html msg) (body msg))
      else if truthy_str (msg_text msg) then the (msg_text msg)
      else [])"

definition renderEmailMessage :: "lib \<Rightarrow> style \<Rightarrow> message \<Rightarrow> 'a pdf_doc_scheme \<Rightarrow> 'a pdf_doc_scheme" where
  "renderEmailMessage L st msg =
     (let b = email_body L msg; maxChars = 3000; truncated = length b > maxChars;
          displayBody = (if truncated then take maxChars b else b)
      in run [run_if (truthy_str (subject msg))
                [fontSize 10, font ''Helvetica-Bold'',
                 doc_text L (''Subject: '' @ the (subject msg)), moveDown L 2],
              run_if (truthy_str (msg_from msg) \<or> truthy_str (msg_to msg))
                [fontSize 9, font ''Helvetica'',
                 doc_text L (join ('' '' @ ARROW_RIGHT @ '' '')
                               (map the (filter truthy_str [msg_from msg, msg_to msg]))),
                 moveDown L 2, moveDown L 3],
              run_if (b \<noteq> [])
                [fontSize 10, font ''Helvetica'', doc_text L displayBody,
                 run_if truncated
                   [moveDown L 2, fontSize 9, font ''Helvetica-Oblique'',
                    doc_text L (truncatedNote st)]],
              renderAttachments L st msg])"

fun transcriptText :: "jsval \<Rightarrow> string" where
  "transcriptText (JStr s) = s"
| "transcriptText (JObj json) = json"
| "transcriptText (JNum n) = (if n < 0 then ''-'' @ string_of_nat (nat (- n)) else string_of_nat (nat n))"
| "transcriptText (JBool b) = (if b then ''true'' else ''false'')"
| "transcriptText JNull = ''null''"
| "transcriptText JUndefined = []"

definition transcription_lines :: "lib \<Rightarrow> jsval \<Rightarrow> 'a pdf_doc_scheme \<Rightarrow> 'a pdf_doc_scheme" where
  "transcription_lines L tr =
     (let t = transcriptText tr; maxChars = 2000; truncated = length t > maxChars;
          displayText = (if truncated then take maxChars t else t)
      in run [fontSize 9, font ''Helvetica-Oblique'', doc_text L ''Transcription:'',
              moveDown L 1, fontSize 10, font ''Helvetica'',
              doc_text L (DQUOTE @ displayText @ (if truncated then ''...'' else []) @ DQUOTE)])"

definition renderCallMessage :: "lib \<Rightarrow> message \<Rightarrow> 'a pdf_doc_scheme \<Rightarrow> 'a pdf_doc_scheme" where
  "renderCallMessage L msg =
     (let parts =
            (if (case callDuration msg of None \<Rightarrow> False | Some n \<Rightarrow> n \<noteq> 0)
             then [''Duration: '' @ formatDuration (callDuration msg)] else []) @
            (if truthy_str (callStatus msg) \<or> truthy_str (msg_status msg)
             then [''Status: '' @ or_default (callStatus msg) (or_default (msg_status msg) [])]
             else [])
      in run [fontSize 10, font ''Helvetica'',
              run_if (length parts > 0) [doc_text L (join ''  |  '' parts), moveDown L 2],
              (case transcription msg of
                 None \<Rightarrow> (\<lambda>d. d)
               | Some tr \<Rightarrow> if truthy tr then transcription_lines L tr else (\<lambda>d. d))])"

definition renderMessage ::
  "lib \<Rightarrow> style \<Rightarrow> ('a pdf_doc_scheme \<Rightarrow> 'a pdf_doc_scheme) \<Rightarrow> message \<Rightarrow> nat
    \<Rightarrow> 'a pdf_doc_scheme \<Rightarrow> 'a pdf_doc_scheme" where
  "renderMessage L st brk msg index =
     (let isOutbound = (direction msg = Some ''outbound'');
          dirLabel = (if isOutbound then outboundLabel st else inboundLabel st);
          channel = messageTypeLabel msg;
          date = formatDate L (dateAdded msg);
          time = formatTime L (dateAdded msg)
      in run [checkPageBreak brk (needed st msg),
              (\<lambda>d. if index > 0 \<and> doc_y d > MARGIN + 10
                    then run [moveDown L 5, moveDown L 5] d else d),
              fontSize 9, font ''Helvetica-Bold'',
              text_continued (''['' @ dirLabel @ '']''),
              font ''Helvetica'',
              doc_text L (headerLead st @ date @ ''  '' @ time @ headerSep st @ channel),
              moveDown L 3,
              (if messageType msg = Some ''CALL'' \<or> channel = ''Call'' then renderCallMessage L msg
               else if channel = ''Email'' then renderEmailMessage L st msg
               else renderTextMessage L st msg),
              moveDown L 3])"

fun renderMessages_from ::
  "lib \<Rightarrow> style \<Rightarrow> ('a pdf_doc_scheme \<Rightarrow> 'a pdf_doc_scheme) \<Rightarrow> nat \<Rightarrow> message list
    \<Rightarrow> 'a pdf_doc_scheme \<Rightarrow> 'a pdf_doc_scheme" where
  "renderMessages_from L st brk i [] d = d"
| "renderMessages_from L st brk i (msg # rest) d =
     renderMessages_from L st brk (i + 1) rest (renderMessage L st brk msg i d)"

definition renderMessages ::
  "lib \<Rightarrow> style \<Rightarrow> ('a pdf_doc_scheme \<Rightarrow> 'a pdf_doc_scheme) \<Rightarrow> message list
    \<Rightarrow> 'a pdf_doc_scheme \<Rightarrow> 'a pdf_doc_scheme" where
  "renderMessages L st brk messages = renderMessages_from L st brk 0 messages"

subsection \<open>The revision that numbers the pages\<close>

definition footer_text :: "lib \<Rightarrow> int \<Rightarrow> nat \<Rightarrow> nat \<Rightarrow> string" where
  "footer_text L now pageNum totalPages =
     ''Page '' @ string_of_nat pageNum @ '' of '' @ string_of_nat totalPages @
     ''  '' @ MIDDLE_DOT @ ''  Exported from GoHighLevel  '' @ MIDDLE_DOT @ ''  '' @
     formatFullDate L now"

definition addPageNumbers :: "lib \<Rightarrow> int \<Rightarrow> pdf_doc \<Rightarrow> pdf_doc" where
  "addPageNumbers L now d =
     (let totalPages = bufferedPageRange_count d
      in fold (\<lambda>i d. let d1 = switchToPage i d
                      in if i = 0 then d1
                         else run [fontSize 8, font ''Helvetica'',
                                   text_at L (footer_text L now (i + 1) totalPages)
                                     (PAGE_HEIGHT - MARGIN + 10)] d1)
              [0..<totalPages] d)"

definition build_document :: "lib \<Rightarrow> int \<Rightarrow> contact \<Rightarrow> message list \<Rightarrow> pdf_doc" where
  "build_document L now c messages =
     run [renderCoverPage L now c messages,
          run_if (length messages > 0) [addPage, renderMessages L style_buffered addPage messages],
          addPageNumbers L now]
       new_PDFDocument"

subsection \<open>The revision that counts the pages in \<^verbatim>\<open>ctx\<close>\<close>

record pdf_ctx = pdf_doc +
  pageNum :: nat
  exportDate :: string

definition newPage :: "pdf_ctx \<Rightarrow> pdf_ctx" where
  "newPage d = (addPage d)\<lparr>pageNum := pageNum d + 1, doc_y := MARGIN\<rparr>"

definition build_document_plain :: "lib \<Rightarrow> int \<Rightarrow> contact \<Rightarrow> message list \<Rightarrow> pdf_ctx" where
  "build_document_plain L now c messages =
     run [renderCoverPage L now c messages,
          run_if (length messages > 0) [newPage, renderMessages L style_plain newPage messages]]
       (pdf_doc.extend new_PDFDocument
          (pdf_ctx.fields 1 (formatFullDate L now)))"

subsection \<open>Writing the file\<close>

text \<open>
  \<^verbatim>\<open>generatePDF\<close> pipes the document into a write stream on \<^verbatim>\<open>outputPath\<close> and
  resolves to the path when the stream has finished, or rejects with the stream's
  error; \<open>write_error\<close> says for which paths the stream fails.
\<close>

record filesystem =
  files :: "string \<rightharpoonup> page list"
  write_error :: "string \<Rightarrow> js_error option"

definition write_document :: "page list \<Rightarrow> string \<Rightarrow> filesystem \<Rightarrow> (js_error + string) \<times> filesystem" where
  "write_document ps outputPath fs =
     (case write_error fs outputPath of
        Some err \<Rightarrow> (Inl err, fs)
      | None \<Rightarrow> (Inr outputPath, fs\<lparr>files := (files fs)(outputPath \<mapsto> ps)\<rparr>))"


definition generatePDF_plain ::
  "lib \<Rightarrow> int \<Rightarrow> contact \<Rightarrow> message list \<Rightarrow> string \<Rightarrow> filesystem \<Rightarrow> (js_error + string) \<times> filesystem" where
  "generatePDF_plain L now c messages outputPath fs =
     write_document (pages (build_document_plain L now c messages)) outputPath fs"

section \<open>Job controller (index.js)\<close>

datatype job_status = Processing | Complete | Failed

record job =
  job_id :: string
  contactId :: string
  locationId :: string
  status :: job_status
  job_progress :: progress
  createdAt :: int
  filePath :: "string option"
  filename :: "string option"
  job_error :: "string option"

text \<open>
  The process state: the \<^verbatim>\<open>jobs\<close> Map in insertion order, the files on disk, and
  the world \<^verbatim>\<open>ghl.apiCall\<close> acts on.
\<close>

record 'u server =
  jobs :: "(string \<times> job) list"
  fs :: filesystem
  upstream :: 'u

definition JOB_TTL_MS :: int where "JOB_TTL_MS = 60 * 60 * 1000"

fun map_set :: "'k \<Rightarrow> 'v \<Rightarrow> ('k \<times> 'v) list \<Rightarrow> ('k \<times> 'v) list" where
  "map_set k v [] = [(k, v)]"
| "map_set k v (p # ps) = (if fst p = k then (k, v) # ps else p # map_set k v ps)"

definition map_delete :: "'k \<Rightarrow> ('k \<times> 'v) list \<Rightarrow> ('k \<times> 'v) list" where
  "map_delete k ps = filter (\<lambda>p. fst p \<noteq> k) ps"

text \<open>\<open>id\<close> is what \<^verbatim>\<open>crypto.randomUUID()\<close> returns, \<open>now\<close> what \<^verbatim>\<open>Date.now()\<close> does.\<close>

definition createJob :: "string \<Rightarrow> int \<Rightarrow> string \<Rightarrow> string \<Rightarrow> 'u server \<Rightarrow> job \<times> 'u server" where
  "createJob uuid now cid lid s =
     (let j = \<lparr>job_id = uuid, contactId = cid, locationId = lid, status = Processing,
               job_progress = PStarting, createdAt = now, filePath = None, filename = None,
               job_error = None\<rparr>
      in (j, s\<lparr>jobs := map_set uuid j (jobs s)\<rparr>))"

definition existsSync :: "filesystem \<Rightarrow> string \<Rightarrow> bool" where
  "existsSync f p \<longleftrightarrow> files f p \<noteq> None"

definition unlinkSync :: "string \<Rightarrow> filesystem \<Rightarrow> filesystem" where
  "unlinkSync p f = f\<lparr>files := (files f)(p := None)\<rparr>"

definition cleanup_entry :: "int \<Rightarrow> string \<times> job \<Rightarrow> 'u server \<Rightarrow> 'u server" where
  "cleanup_entry now e s =
     (case e of (k, j) \<Rightarrow>
        if now - createdAt j > JOB_TTL_MS
        then (let s1 = (if truthy_str (filePath j) \<and> existsSync (fs s) (the (filePath j))
                        then s\<lparr>fs := unlinkSync (the (filePath j)) (fs s)\<rparr> else s)
              in s1\<lparr>jobs := map_delete k (jobs s1)\<rparr>)
        else s)"

definition cleanupJobs :: "int \<Rightarrow> 'u server \<Rightarrow> 'u server" where
  "cleanupJobs now s = fold (cleanup_entry now) (jobs s) s"

datatype http_response =
    JsonError nat string
  | JsonStatus string job_status progress "string option" "string option"
  | Download string "string option"

text \<open>\<^verbatim>\<open>GET /api/export/:jobId\<close> and \<^verbatim>\<open>GET /api/export/:jobId/download\<close>.\<close>

definition get_export :: "'u server \<Rightarrow> string \<Rightarrow> http_response" where
  "get_export s jobId =
     (case map_of (jobs s) jobId of
        None \<Rightarrow> JsonError 404 ''Job not found''
      | Some j \<Rightarrow> JsonStatus (job_id j) (status j) (job_progress j) (job_error j) (filename j))"

definition get_export_download :: "'u server \<Rightarrow> string \<Rightarrow> http_response" where
  "get_export_download s jobId =
     (case map_of (jobs s) jobId of
        None \<Rightarrow> JsonError 404 ''Job not found''
      | Some j \<Rightarrow>
          if status j \<noteq> Complete then JsonError 400 ''Export not ready''
          else if \<not> truthy_str (filePath j) \<or> \<not> existsSync (fs s) (the (filePath j))
          then JsonError 404 ''File not found''
          else Download (the (filePath j)) (filename j))"

subsection \<open>Date filter\<close>

text \<open>
  A date string of the request: a calendar date \<^verbatim>\<open>YYYY-MM-DD\<close> (the form the
  date-range route of \<^verbatim>\<open>index.js\<close> itself sends, here its day number since the
  epoch), which \<^verbatim>\<open>new Date\<close> reads as midnight UTC; any other form
  \<^verbatim>\<open>new Date\<close> can read, as the instant it denotes; or a string it cannot read.
  \<^verbatim>\<open>setHours\<close> sets the time of day in the zone of the process, \<open>tz\<close>
  milliseconds ahead of UTC. An invalid date compares false with everything.
\<close>

datatype date_string = DateOnly int | DateTime int | Unparseable

definition DAY_MS :: int where "DAY_MS = 86400000"

definition new_Date :: "date_string \<Rightarrow> int option" where
  "new_Date s = (case s of DateOnly d \<Rightarrow> Some (d * DAY_MS) | DateTime t \<Rightarrow> Some t | Unparseable \<Rightarrow> None)"

definition setHours :: "int \<Rightarrow> int option \<Rightarrow> int \<Rightarrow> int \<Rightarrow> int \<Rightarrow> int \<Rightarrow> int option" where
  "setHours tz date h m sec ms =
     (case date of
        None \<Rightarrow> None
      | Some t \<Rightarrow> Some (((t + tz) div DAY_MS) * DAY_MS + h * 3600000 + m * 60000 + sec * 1000 + ms - tz))"

definition date_ge :: "int option \<Rightarrow> int option \<Rightarrow> bool" where
  "date_ge date bound =
     (case date of None \<Rightarrow> False
      | Some t \<Rightarrow> (case bound of None \<Rightarrow> False | Some b \<Rightarrow> t \<ge> b))"

definition date_le :: "int option \<Rightarrow> int option \<Rightarrow> bool" where
  "date_le date bound =
     (case date of None \<Rightarrow> False
      | Some t \<Rightarrow> (case bound of None \<Rightarrow> False | Some b \<Rightarrow> t \<le> b))"

record dateRange =
  startDate :: "date_string option"
  endDate :: "date_string option"

definition dateFilter :: "int \<Rightarrow> dateRange \<Rightarrow> message list \<Rightarrow> message list" where
  "dateFilter tz dr messages =
     (let messages1 =
            (case startDate dr of
               None \<Rightarrow> messages
             | Some sd \<Rightarrow>
                 (let start = setHours tz (new_Date sd) 0 0 0 0
                  in filter (\<lambda>m. date_ge (dateAdded m) start) messages))
      in case endDate dr of
           None \<Rightarrow> messages1
         | Some ed \<Rightarrow>
             (let end = setHours tz (new_Date ed) 23 59 59 999
              in filter (\<lambda>m. date_le (dateAdded m) end) messages1))"

subsection \<open>Running an export\<close>


text \<open>A write through the job object; a job no longer in the Map is out of sight.\<close>

definition update_job :: "string \<Rightarrow> (job \<Rightarrow> job) \<Rightarrow> 'u server \<Rightarrow> 'u server" where
  "update_job k f s = s\<lparr>jobs := map (\<lambda>p. if fst p = k then (fst p, f (snd p)) else p) (jobs s)\<rparr>"







text \<open>
  \<open>gen\<close> is \<^verbatim>\<open>pdf.generatePDF\<close>. The result is \<open>Inl\<close> when the promise of
  \<^verbatim>\<open>runExport\<close> rejects.
\<close>

definition mirror_progress :: "job \<Rightarrow> 'u server onProgress" where
  "mirror_progress j = Some (\<lambda>p. update_job (job_id j) (\<lambda>jb. jb\<lparr>job_progress := p\<rparr>))"


section \<open>Upstreams and fixtures\<close>

text \<open>
  An upstream that answers the \<open>k\<close>-th call with the page \<open>pgs k\<close>, whatever the
  request: the world is the number of calls so far, next to a component \<open>'x\<close>
  that only the progress callback writes.
\<close>

definition paged_api :: "(nat \<Rightarrow> response_data) \<Rightarrow> (nat \<times> 'x) apiCall" where
  "paged_api pgs w lid req = (Inr (pgs (fst w)), (Suc (fst w), snd w))"

definition paged_progress :: "(progress \<Rightarrow> 'x \<Rightarrow> 'x) option \<Rightarrow> (nat \<times> 'x) onProgress" where
  "paged_progress cb = map_option (\<lambda>f p w. (fst w, f p (snd w))) cb"

text \<open>
  The cursor a page yields, the cursor the loop holds when it asks for page \<open>k\<close>,
  and the test on which the guarded loops leave.
\<close>

definition conversations_cursor :: "response_data \<Rightarrow> string option" where
  "conversations_cursor d = conversations_nextId d (conversations_batch d)"

definition messages_cursor :: "response_data \<Rightarrow> string option" where
  "messages_cursor d = messages_nextId d (messages_batch d)"

definition previous_cursor ::
  "(response_data \<Rightarrow> string option) \<Rightarrow> (nat \<Rightarrow> response_data) \<Rightarrow> nat \<Rightarrow> string option" where
  "previous_cursor cursor pgs k = (case k of 0 \<Rightarrow> None | Suc j \<Rightarrow> cursor (pgs j))"

definition conversations_stop :: "(nat \<Rightarrow> response_data) \<Rightarrow> nat \<Rightarrow> bool" where
  "conversations_stop pgs k \<longleftrightarrow>
     conversations_batch (pgs k) = [] \<or> conversations_cursor (pgs k) = None \<or>
     conversations_cursor (pgs k) = Some [] \<or>
     conversations_cursor (pgs k) = previous_cursor conversations_cursor pgs k"

definition messages_stop :: "(nat \<Rightarrow> response_data) \<Rightarrow> nat \<Rightarrow> bool" where
  "messages_stop pgs k \<longleftrightarrow>
     messages_batch (pgs k) = [] \<or> messages_cursor (pgs k) = None \<or>
     messages_cursor (pgs k) = Some [] \<or>
     messages_cursor (pgs k) = previous_cursor messages_cursor pgs k"

definition blank_message :: message where
  "blank_message =
     \<lparr>msg_id = None, messageType = None, msg_type = None, contentType = None, msg_status = None,
      direction = None, dateAdded = None, body = None, msg_text = None, msg_message = None,
      subject = None, msg_from = None, msg_to = None, html = None, callDuration = None,
      callStatus = None, transcription = None, attachments = None\<rparr>"

definition blank_data :: response_data where
  "blank_data =
     \<lparr>data_conversations = ConvAbsent, data_messages = MsgAbsent, data_lastMessageId = None,
      data_nextPage = JUndefined, data_transcription = JUndefined\<rparr>"

text \<open>
  The mock upstream of the pagination test: every page holds one item and keeps
  \<^verbatim>\<open>nextPage\<close> set; the cursor is \<^verbatim>\<open>a\<close> on the first page and \<^verbatim>\<open>b\<close> on every
  later one.
\<close>

definition stalled_cursor :: "nat \<Rightarrow> string" where
  "stalled_cursor k = (if k = 0 then ''a'' else ''b'')"

definition stalled_page :: "nat \<Rightarrow> response_data" where
  "stalled_page k =
     blank_data\<lparr>data_conversations :=
                  ConvArr [\<lparr>conv_id = Some ''c'', conv_lastMessageId = Some (stalled_cursor k)\<rparr>],
                data_messages := MsgArr [blank_message\<lparr>msg_id := Some (stalled_cursor k)\<rparr>],
                data_lastMessageId := Some (stalled_cursor k),
                data_nextPage := JBool True\<rparr>"


text \<open>
  A small upstream: one conversation with an SMS and three completed calls; the
  recording of \<^verbatim>\<open>m2\<close> has a transcription, that of \<^verbatim>\<open>m3\<close> is not found, that of
  \<^verbatim>\<open>m4\<close> comes back empty, and any other lookup fails with status 500.
\<close>

definition demo_sms :: message where
  "demo_sms = blank_message\<lparr>msg_id := Some ''m1'', messageType := Some ''SMS'',
     msg_type := Some ''TYPE_SMS'', direction := Some ''outbound'', dateAdded := Some 30,
     body := Some ''hi''\<rparr>"

definition demo_call :: "string \<Rightarrow> message" where
  "demo_call i = blank_message\<lparr>msg_id := Some i, messageType := Some ''CALL'',
     msg_type := Some ''TYPE_CALL'', msg_status := Some ''completed'',
     direction := Some ''inbound'', dateAdded := Some 10\<rparr>"

definition demo_conversation :: conversation where
  "demo_conversation = \<lparr>conv_id = Some ''c1'', conv_lastMessageId = None\<rparr>"

definition demo_api :: "message list \<Rightarrow> 'u apiCall" where
  "demo_api msgs u lid req =
     (case req of
        SearchConversations _ _ cursor \<Rightarrow>
          (Inr (blank_data\<lparr>data_conversations :=
                  ConvArr (if cursor = None then [demo_conversation] else [])\<rparr>), u)
      | GetMessages _ cursor \<Rightarrow>
          (Inr (blank_data\<lparr>data_messages :=
                  MsgNested (Some (if cursor = None then msgs else []))\<rparr>), u)
      | GetRecording mid _ \<Rightarrow>
          (if mid = Some ''m2'' then (Inr (blank_data\<lparr>data_transcription := JStr ''hello''\<rparr>), u)
           else if mid = Some ''m3''
           then (Inl (AxiosError (Some 404) ''Request failed with status code 404''), u)
           else if mid = Some ''m4'' then (Inr (blank_data\<lparr>data_transcription := JStr []\<rparr>), u)
           else (Inl (AxiosError (Some 500) ''Request failed with status code 500''), u)))"

definition demo_lib :: lib where
  "demo_lib =
     \<lparr>text_height = (\<lambda>f n s. 12), line_height = (\<lambda>f n k. int k),
      formatDate = (\<lambda>t. ''D''), formatTime = (\<lambda>t. ''T''), formatFullDate = (\<lambda>t. ''F''),
      convert = (\<lambda>s. s)\<rparr>"

definition demo_contact :: contact where
  "demo_contact = \<lparr>contact_name = Some ''Jane Doe'', contact_email = None, contact_phone = None\<rparr>"

definition no_files :: filesystem where
  "no_files = \<lparr>files = Map.empty, write_error = (\<lambda>p. None)\<rparr>"

definition demo_job :: job where
  "demo_job =
     \<lparr>job_id = ''0123456789'', contactId = ''ct'', locationId = ''loc'', status = Processing,
      job_progress = PStarting, createdAt = 0, filePath = None, filename = None,
      job_error = None\<rparr>"

definition demo_server :: "unit server" where
  "demo_server = \<lparr>jobs = [(''0123456789'', demo_job)], fs = no_files, upstream = ()\<rparr>"

text \<open>The server with the one job, its progress being \<open>p\<close>.\<close>

definition demo_at :: "progress \<Rightarrow> unit server" where
  "demo_at p = demo_server\<lparr>jobs := [(''0123456789'', demo_job\<lparr>job_progress := p\<rparr>)]\<rparr>"


text \<open>
  The test \<^verbatim>\<open>runExport\<close> applies to a message, and the window the claim is
  about: from 00:00:00.000 of the start date to 23:59:59.999 of the end date, on the
  clock of a zone \<open>tz\<close> milliseconds ahead of UTC.
\<close>

definition retained :: "int \<Rightarrow> dateRange \<Rightarrow> message \<Rightarrow> bool" where
  "retained tz dr m \<longleftrightarrow>
     (case startDate dr of
        None \<Rightarrow> True
      | Some sd \<Rightarrow> date_ge (dateAdded m) (setHours tz (new_Date sd) 0 0 0 0)) \<and>
     (case endDate dr of
        None \<Rightarrow> True
      | Some ed \<Rightarrow> date_le (dateAdded m) (setHours tz (new_Date ed) 23 59 59 999))"

definition local_instant :: "int \<Rightarrow> int \<Rightarrow> int \<Rightarrow> int \<Rightarrow> int \<Rightarrow> int \<Rightarrow> int" where
  "local_instant tz day h m sec ms = day * DAY_MS + h * 3600000 + m * 60000 + sec * 1000 + ms - tz"

definition in_window :: "int \<Rightarrow> int option \<Rightarrow> int option \<Rightarrow> message \<Rightarrow> bool" where
  "in_window tz first_day last_day m \<longleftrightarrow>
     (case first_day of
        None \<Rightarrow> True
      | Some d \<Rightarrow> (case dateAdded m of None \<Rightarrow> False | Some t \<Rightarrow> local_instant tz d 0 0 0 0 \<le> t)) \<and>
     (case last_day of
        None \<Rightarrow> True
      | Some d \<Rightarrow> (case dateAdded m of None \<Rightarrow> False | Some t \<Rightarrow> t \<le> local_instant tz d 23 59 59 999))"

definition day_range :: "int option \<Rightarrow> int option \<Rightarrow> dateRange" where
  "day_range first_day last_day =
     \<lparr>startDate = map_option DateOnly first_day, endDate = map_option DateOnly last_day\<rparr>"

definition message_at :: "int \<Rightarrow> message" where
  "message_at t = blank_message\<lparr>dateAdded := Some t\<rparr>"

text \<open>
  A registry with a finished job and a job still processing, both created at 0, and
  a job created at 3600000; the finished job's file is on disk.
\<close>

definition old_done :: job where
  "old_done = demo_job\<lparr>job_id := ''old-done'', status := Complete,
                filePath := Some ''data/exports/a.pdf'', filename := Some ''a.pdf''\<rparr>"

definition old_running :: job where
  "old_running = demo_job\<lparr>job_id := ''old-running''\<rparr>"

definition fresh_job :: job where
  "fresh_job = demo_job\<lparr>job_id := ''fresh'', createdAt := 3600000\<rparr>"

definition reaper_server :: "unit server" where
  "reaper_server =
     \<lparr>jobs = [(''old-done'', old_done), (''old-running'', old_running), (''fresh'', fresh_job)],
      fs = no_files\<lparr>files := [''data/exports/a.pdf'' \<mapsto> [[]]]\<rparr>,
      upstream = ()\<rparr>"

text \<open>
  The order stage 4 is to establish: no message comes before one whose timestamp is
  earlier. A message whose timestamp is invalid is neither earlier nor later than
  any other. \<open>dated\<close> says that the timestamp of a message is a valid date, and
  \<open>timestamp\<close> is that date.
\<close>

definition out_of_order :: "message \<Rightarrow> message \<Rightarrow> bool" where
  "out_of_order a b \<longleftrightarrow>
     (case dateAdded a of
        None \<Rightarrow> False
      | Some x \<Rightarrow> (case dateAdded b of None \<Rightarrow> False | Some y \<Rightarrow> y < x))"

definition chronological :: "message list \<Rightarrow> bool" where
  "chronological ms \<longleftrightarrow> sorted_wrt (\<lambda>a b. \<not> out_of_order a b) ms"

definition dated :: "message \<Rightarrow> bool" where
  "dated m \<longleftrightarrow> dateAdded m \<noteq> None"

definition timestamp :: "message \<Rightarrow> int" where
  "timestamp m = the (dateAdded m)"

text \<open>
  A history of three SMS: one of 3 January 1970, one without \<^verbatim>\<open>dateAdded\<close>, one
  of 1 January 1970.
\<close>

definition undated_history :: "message list" where
  "undated_history =
     [demo_sms\<lparr>dateAdded := Some (2 * DAY_MS)\<rparr>,
      demo_sms\<lparr>msg_id := Some ''m2'', dateAdded := None\<rparr>,
      demo_sms\<lparr>msg_id := Some ''m3'', dateAdded := Some 0\<rparr>]"

text \<open>A job the reaper removes at the instant \<open>now\<close>.\<close>

definition expired :: "int \<Rightarrow> job \<Rightarrow> bool" where
  "expired now j \<longleftrightarrow> now - createdAt j > JOB_TTL_MS"

text \<open>
  What a reader of the document sees: the strings of every page in the order they
  were drawn, and the page being written. \<open>put\<close> draws one more string on that page.
\<close>

definition shape :: "'a pdf_doc_scheme \<Rightarrow> string list list \<times> nat" where
  "shape d = (map (map snd) (pages d), cur d)"

definition put :: "string \<Rightarrow> string list list \<times> nat \<Rightarrow> string list list \<times> nat" where
  "put s sh = ((fst sh)[snd sh := fst sh ! snd sh @ [s]], snd sh)"

definition current_ok :: "'a pdf_doc_scheme \<Rightarrow> bool" where
  "current_ok d \<longleftrightarrow> cur d < length (pages d)"

text \<open>The strings \<^verbatim>\<open>renderCoverPage\<close> draws, in order.\<close>

definition cover_texts :: "lib \<Rightarrow> int \<Rightarrow> contact \<Rightarrow> message list \<Rightarrow> string list" where
  "cover_texts L now c messages =
     [''CONVERSATION EXPORT'', ''Contact'', or_default (contact_name c) ''Unknown Contact''] @
     (if truthy_str (contact_email c) then [''Email: '' @ the (contact_email c)] else []) @
     (if truthy_str (contact_phone c) then [''Phone: '' @ the (contact_phone c)] else []) @
     [''Total Messages'', toLocaleString (length messages),
      ''Date Range'', dateRange (getMessageStats L messages),
      ''Export Date'', formatFullDate L now] @
     (if channels (getMessageStats L messages) = [] then []
      else [''Channels: '' @ join '', '' (channels (getMessageStats L messages))])"

text \<open>
  The footer \<^verbatim>\<open>addPageNumbers\<close> draws for the page of index \<open>i\<close> of \<open>n\<close>, where it
  ends up, and one round of its loop.
\<close>

definition footer_line :: "lib \<Rightarrow> int \<Rightarrow> nat \<Rightarrow> nat \<Rightarrow> int \<times> string" where
  "footer_line L now i n = (MARGIN, footer_text L now (i + 1) n)"

definition number_page :: "lib \<Rightarrow> int \<Rightarrow> nat \<Rightarrow> nat \<Rightarrow> pdf_doc \<Rightarrow> pdf_doc" where
  "number_page L now n i d =
     (let d1 = switchToPage i d
      in if i = 0 then d1
         else run [fontSize 8, font ''Helvetica'',
                   text_at L (footer_text L now (i + 1) n) (PAGE_HEIGHT - MARGIN + 10)] d1)"

text \<open>
  What aggregation may do to a fetched message: nothing, or, for a completed call
  with a direction, set its transcription to a truthy value.
\<close>

definition attached :: "message \<Rightarrow> message \<Rightarrow> bool" where
  "attached m m' \<longleftrightarrow>
     m' = m \<or> (isCompletedCall m \<and> (\<exists>t. truthy t \<and> m' = m\<lparr>transcription := Some t\<rparr>))"


definition demo_fetched :: "message list" where
  "demo_fetched = [demo_sms, demo_call ''m2'', demo_call ''m3'', demo_call ''m4'']"

definition demo_failing :: "message list" where
  "demo_failing = [demo_sms, demo_call ''m2'', demo_call ''m3'', demo_call ''m5'']"

section \<open>Pagination\<close>

lemma truthy_str_iff: "truthy_str x \<longleftrightarrow> x \<noteq> None \<and> x \<noteq> Some []"
  by (cases x) auto

lemma fst_notify_paged: "fst (notify (paged_progress cb) p w) = fst w"
  by (cases cb) (auto simp: notify_def paged_progress_def)

lemma notify_paged_eq: "notify (paged_progress cb) p (k, x) = (k, snd (notify (paged_progress cb) p (k, x)))"
  using fst_notify_paged[of cb p "(k, x)"] by (metis fst_conv prod.collapse)

text \<open>
  The guarded loops on a paged upstream: they leave at the first page whose batch is
  empty or whose cursor is absent or equal to the one held, with the batches so far.
\<close>


lemma conv_loop_stop:
  assumes "conversations_stop pgs k" "lastId = previous_cursor conversations_cursor pgs k"
  shows "\<exists>x'. fetchAllConversations_loop (paged_api pgs) (paged_progress cb) lid cid acc lastId (k, x) =
          Some (Inr (acc @ conversations_batch (pgs k)), (Suc k, x'))"
proof -
  let ?w2 = "notify (paged_progress cb) (PConversations (length (acc @ conversations_batch (pgs k)))) (Suc k, x)"
  have "fetchAllConversations_loop (paged_api pgs) (paged_progress cb) lid cid acc lastId (k, x) =
          Some (Inr (acc @ conversations_batch (pgs k)), ?w2)"
    using assms
    by (subst fetchAllConversations_loop.simps)
       (auto simp: paged_api_def conversations_stop_def conversations_cursor_def Let_def truthy_str_iff)
  then show ?thesis using notify_paged_eq[of cb _ "Suc k" x] by metis
qed

lemma conv_loop_go:
  assumes "\<not> conversations_stop pgs k" "lastId = previous_cursor conversations_cursor pgs k"
  shows "\<exists>x'. fetchAllConversations_loop (paged_api pgs) (paged_progress cb) lid cid acc lastId (k, x) =
          fetchAllConversations_loop (paged_api pgs) (paged_progress cb) lid cid
            (acc @ conversations_batch (pgs k)) (previous_cursor conversations_cursor pgs (Suc k)) (Suc k, x')"
proof -
  let ?w2 = "notify (paged_progress cb) (PConversations (length (acc @ conversations_batch (pgs k)))) (Suc k, x)"
  have "fetchAllConversations_loop (paged_api pgs) (paged_progress cb) lid cid acc lastId (k, x) =
          fetchAllConversations_loop (paged_api pgs) (paged_progress cb) lid cid
            (acc @ conversations_batch (pgs k)) (previous_cursor conversations_cursor pgs (Suc k)) ?w2"
    using assms
    by (subst fetchAllConversations_loop.simps)
       (auto simp: paged_api_def conversations_stop_def conversations_cursor_def Let_def previous_cursor_def truthy_str_iff)
  then show ?thesis using notify_paged_eq[of cb _ "Suc k" x] by metis
qed

lemma conv_loop_terminates:
  assumes stab: "conversations_stop pgs n"
  shows "k \<le> n \<Longrightarrow> lastId = previous_cursor conversations_cursor pgs k \<Longrightarrow>
         \<exists>m x'. k \<le> m \<and> m \<le> n \<and> conversations_stop pgs m \<and> (\<forall>j. k \<le> j \<and> j < m \<longrightarrow> \<not> conversations_stop pgs j) \<and>
           fetchAllConversations_loop (paged_api pgs) (paged_progress cb) lid cid acc lastId (k, x) =
             Some (Inr (acc @ concat (map (\<lambda>j. conversations_batch (pgs j)) [k..<Suc m])), (Suc m, x'))"
proof (induction "n - k" arbitrary: k acc lastId x)
  case 0
  then have kn: "k = n" by simp
  from conv_loop_stop[OF stab, of lastId cb lid cid acc x] 0 kn
  obtain x' where "fetchAllConversations_loop (paged_api pgs) (paged_progress cb) lid cid acc lastId (k, x) =
          Some (Inr (acc @ conversations_batch (pgs k)), (Suc k, x'))" by auto
  then show ?case using stab kn by (intro exI[of _ k] exI[of _ x']) auto
next
  case (Suc d)
  show ?case
  proof (cases "conversations_stop pgs k")
    case True
    from conv_loop_stop[OF True Suc.prems(2), of cb lid cid acc x]
    obtain x' where "fetchAllConversations_loop (paged_api pgs) (paged_progress cb) lid cid acc lastId (k, x) =
          Some (Inr (acc @ conversations_batch (pgs k)), (Suc k, x'))" by auto
    then show ?thesis using True Suc.prems by (intro exI[of _ k] exI[of _ x']) auto
  next
    case False
    from conv_loop_go[OF False Suc.prems(2), of cb lid cid acc x]
    obtain x1 where go: "fetchAllConversations_loop (paged_api pgs) (paged_progress cb) lid cid acc lastId (k, x) =
          fetchAllConversations_loop (paged_api pgs) (paged_progress cb) lid cid
            (acc @ conversations_batch (pgs k)) (previous_cursor conversations_cursor pgs (Suc k)) (Suc k, x1)" by auto
    have d: "d = n - Suc k" "Suc k \<le> n" using Suc.hyps(2) Suc.prems by auto
    from Suc.hyps(1)[OF d(1) d(2) refl, of "acc @ conversations_batch (pgs k)" x1]
    obtain m x' where m: "Suc k \<le> m" "m \<le> n" "conversations_stop pgs m"
      "\<forall>j. Suc k \<le> j \<and> j < m \<longrightarrow> \<not> conversations_stop pgs j"
      "fetchAllConversations_loop (paged_api pgs) (paged_progress cb) lid cid
            (acc @ conversations_batch (pgs k)) (previous_cursor conversations_cursor pgs (Suc k)) (Suc k, x1) =
       Some (Inr ((acc @ conversations_batch (pgs k)) @ concat (map (\<lambda>j. conversations_batch (pgs j)) [Suc k..<Suc m])), (Suc m, x'))"
      by blast
    have up: "[k..<Suc m] = k # [Suc k..<Suc m]" using m(1) by (simp add: upt_conv_Cons)
    have nostop: "\<forall>j. k \<le> j \<and> j < m \<longrightarrow> \<not> conversations_stop pgs j"
      using m(4) False by (metis Suc_leI le_neq_implies_less)
    show ?thesis
      using m(1,2,3) nostop go m(5) up by (intro exI[of _ m] exI[of _ x']) auto
  qed
qed

lemma fetchAllConversations_terminates:
  assumes "conversations_cursor (pgs (Suc n)) = conversations_cursor (pgs n)"
  shows "\<exists>m x'. m \<le> Suc n \<and> conversations_stop pgs m \<and> (\<forall>j. j < m \<longrightarrow> \<not> conversations_stop pgs j) \<and>
           fetchAllConversations (paged_api pgs) (paged_progress cb) lid cid (0, x) =
             Some (Inr (concat (map (\<lambda>j. conversations_batch (pgs j)) [0..<Suc m])), (Suc m, x'))"
proof -
  have s: "conversations_stop pgs (Suc n)"
    using assms by (simp add: conversations_stop_def previous_cursor_def)
  from conv_loop_terminates[OF s, of 0 None cb lid cid "[]" x]
  show ?thesis unfolding fetchAllConversations_def by (auto simp: previous_cursor_def)
qed



lemma msg_loop_stop:
  assumes "messages_stop pgs k" "lastId = previous_cursor messages_cursor pgs k"
  shows "\<exists>x'. fetchAllMessages_loop (paged_api pgs) (paged_progress cb) lid cid acc lastId (k, x) =
          Some (Inr (acc @ messages_batch (pgs k)), (Suc k, x'))"
proof -
  let ?w2 = "notify (paged_progress cb) (PMessages cid (length (acc @ messages_batch (pgs k)))) (Suc k, x)"
  have "fetchAllMessages_loop (paged_api pgs) (paged_progress cb) lid cid acc lastId (k, x) =
          Some (Inr (acc @ messages_batch (pgs k)), ?w2)"
    using assms
    by (subst fetchAllMessages_loop.simps)
       (auto simp: paged_api_def messages_stop_def messages_cursor_def Let_def truthy_str_iff)
  then show ?thesis using notify_paged_eq[of cb _ "Suc k" x] by metis
qed

lemma msg_loop_go:
  assumes "\<not> messages_stop pgs k" "lastId = previous_cursor messages_cursor pgs k"
  shows "\<exists>x'. fetchAllMessages_loop (paged_api pgs) (paged_progress cb) lid cid acc lastId (k, x) =
          fetchAllMessages_loop (paged_api pgs) (paged_progress cb) lid cid
            (acc @ messages_batch (pgs k)) (previous_cursor messages_cursor pgs (Suc k)) (Suc k, x')"
proof -
  let ?w2 = "notify (paged_progress cb) (PMessages cid (length (acc @ messages_batch (pgs k)))) (Suc k, x)"
  have "fetchAllMessages_loop (paged_api pgs) (paged_progress cb) lid cid acc lastId (k, x) =
          fetchAllMessages_loop (paged_api pgs) (paged_progress cb) lid cid
            (acc @ messages_batch (pgs k)) (previous_cursor messages_cursor pgs (Suc k)) ?w2"
    using assms
    by (subst fetchAllMessages_loop.simps)
       (auto simp: paged_api_def messages_stop_def messages_cursor_def Let_def previous_cursor_def truthy_str_iff)
  then show ?thesis using notify_paged_eq[of cb _ "Suc k" x] by metis
qed

lemma msg_loop_terminates:
  assumes stab: "messages_stop pgs n"
  shows "k \<le> n \<Longrightarrow> lastId = previous_cursor messages_cursor pgs k \<Longrightarrow>
         \<exists>m x'. k \<le> m \<and> m \<le> n \<and> messages_stop pgs m \<and> (\<forall>j. k \<le> j \<and> j < m \<longrightarrow> \<not> messages_stop pgs j) \<and>
           fetchAllMessages_loop (paged_api pgs) (paged_progress cb) lid cid acc lastId (k, x) =
             Some (Inr (acc @ concat (map (\<lambda>j. messages_batch (pgs j)) [k..<Suc m])), (Suc m, x'))"
proof (induction "n - k" arbitrary: k acc lastId x)
  case 0
  then have kn: "k = n" by simp
  from msg_loop_stop[OF stab, of lastId cb lid cid acc x] 0 kn
  obtain x' where "fetchAllMessages_loop (paged_api pgs) (paged_progress cb) lid cid acc lastId (k, x) =
          Some (Inr (acc @ messages_batch (pgs k)), (Suc k, x'))" by auto
  then show ?case using stab kn by (intro exI[of _ k] exI[of _ x']) auto
next
  case (Suc d)
  show ?case
  proof (cases "messages_stop pgs k")
    case True
    from msg_loop_stop[OF True Suc.prems(2), of cb lid cid acc x]
    obtain x' where "fetchAllMessages_loop (paged_api pgs) (paged_progress cb) lid cid acc lastId (k, x) =
          Some (Inr (acc @ messages_batch (pgs k)), (Suc k, x'))" by auto
    then show ?thesis using True Suc.prems by (intro exI[of _ k] exI[of _ x']) auto
  next
    case False
    from msg_loop_go[OF False Suc.prems(2), of cb lid cid acc x]
    obtain x1 where go: "fetchAllMessages_loop (paged_api pgs) (paged_progress cb) lid cid acc lastId (k, x) =
          fetchAllMessages_loop (paged_api pgs) (paged_progress cb) lid cid
            (acc @ messages_batch (pgs k)) (previous_cursor messages_cursor pgs (Suc k)) (Suc k, x1)" by auto
    have d: "d = n - Suc k" "Suc k \<le> n" using Suc.hyps(2) Suc.prems by auto
    from Suc.hyps(1)[OF d(1) d(2) refl, of "acc @ messages_batch (pgs k)" x1]
    obtain m x' where m: "Suc k \<le> m" "m \<le> n" "messages_stop pgs m"
      "\<forall>j. Suc k \<le> j \<and> j < m \<longrightarrow> \<not> messages_stop pgs j"
      "fetchAllMessages_loop (paged_api pgs) (paged_progress cb) lid cid
            (acc @ messages_batch (pgs k)) (previous_cursor messages_cursor pgs (Suc k)) (Suc k, x1) =
       Some (Inr ((acc @ messages_batch (pgs k)) @ concat (map (\<lambda>j. messages_batch (pgs j)) [Suc k..<Suc m])), (Suc m, x'))"
      by blast
    have up: "[k..<Suc m] = k # [Suc k..<Suc m]" using m(1) by (simp add: upt_conv_Cons)
    have nostop: "\<forall>j. k \<le> j \<and> j < m \<longrightarrow> \<not> messages_stop pgs j"
      using m(4) False by (metis Suc_leI le_neq_implies_less)
    show ?thesis
      using m(1,2,3) nostop go m(5) up by (intro exI[of _ m] exI[of _ x']) auto
  qed
qed

lemma fetchAllMessages_terminates:
  assumes "messages_cursor (pgs (Suc n)) = messages_cursor (pgs n)"
  shows "\<exists>m x'. m \<le> Suc n \<and> messages_stop pgs m \<and> (\<forall>j. j < m \<longrightarrow> \<not> messages_stop pgs j) \<and>
           fetchAllMessages (paged_api pgs) (paged_progress cb) lid cid (0, x) =
             Some (Inr (concat (map (\<lambda>j. messages_batch (pgs j)) [0..<Suc m])), (Suc m, x'))"
proof -
  have s: "messages_stop pgs (Suc n)"
    using assms by (simp add: messages_stop_def previous_cursor_def)
  from msg_loop_terminates[OF s, of 0 None cb lid cid "[]" x]
  show ?thesis unfolding fetchAllMessages_def by (auto simp: previous_cursor_def)
qed

text \<open>
  The flag loops on the mock upstream: whatever they return would have to come from
  one more turn of the loop.
\<close>


lemma conv_flag_diverges_aux:
  fixes api0 :: "(nat \<times> 'x) apiCall"
  assumes "fetchAllConversations_flag_loop api0 cb0 lid0 cid0 acc0 lastId0 w0 = Some y0"
  shows "api0 \<noteq> paged_api stalled_page"
proof (rule fetchAllConversations_flag_loop.raw_induct
         [where P = "\<lambda>api cb lid cid acc lastId w y. api \<noteq> paged_api stalled_page", OF _ assms])
  fix f :: "(nat \<times> 'x) apiCall \<Rightarrow> (nat \<times> 'x) onProgress \<Rightarrow> string \<Rightarrow> string \<Rightarrow> conversation list
               \<Rightarrow> string option \<Rightarrow> nat \<times> 'x \<Rightarrow> ((js_error + conversation list) \<times> nat \<times> 'x) option"
    and api :: "(nat \<times> 'x) apiCall" and cb lid cid acc lastId w y
  assume IH: "\<And>api cb lid cid acc lastId w y. f api cb lid cid acc lastId w = Some y \<Longrightarrow> api \<noteq> paged_api stalled_page"
  assume step: "(case api w lid (SearchConversations lid cid (cursor_param lastId)) of
        (Inl err, w1) \<Rightarrow> Some (Inl err, w1)
      | (Inr d, w1) \<Rightarrow>
          (case conversations_batch_flag d of
             Inl err \<Rightarrow> Some (Inl err, w1)
           | Inr batch \<Rightarrow>
               (let conversations' = acc @ batch;
                    w2 = notify cb (PConversations (length conversations')) w1
                in if batch = [] \<or> \<not> truthy (data_nextPage d)
                   then Some (Inr conversations', w2)
                   else f api cb lid cid conversations'
                          (js_or (conv_lastMessageId (last batch)) (conv_id (last batch))) w2))) = Some y"
  show "api \<noteq> paged_api stalled_page"
  proof
    assume a: "api = paged_api stalled_page"
    from step have "\<exists>acc' l' w'. f api cb lid cid acc' l' w' = Some y"
      unfolding a
      by (simp add: paged_api_def stalled_page_def blank_data_def conversations_batch_flag_def Let_def
               del: split_paired_Ex) blast
    with IH a show False by blast
  qed
qed

lemma conv_flag_diverges:
  "fetchAllConversations_flag (paged_api stalled_page) cb lid cid w = None"
  unfolding fetchAllConversations_flag_def
  using conv_flag_diverges_aux by (metis not_Some_eq)

lemma msg_flag_diverges_aux:
  fixes api0 :: "(nat \<times> 'x) apiCall"
  assumes "fetchAllMessages_flag_loop api0 cb0 lid0 cid0 acc0 lastId0 w0 = Some y0"
  shows "api0 \<noteq> paged_api stalled_page"
proof (rule fetchAllMessages_flag_loop.raw_induct
         [where P = "\<lambda>api cb lid cid acc lastId w y. api \<noteq> paged_api stalled_page", OF _ assms])
  fix f :: "(nat \<times> 'x) apiCall \<Rightarrow> (nat \<times> 'x) onProgress \<Rightarrow> string \<Rightarrow> string option \<Rightarrow> message list
               \<Rightarrow> string option \<Rightarrow> nat \<times> 'x \<Rightarrow> ((js_error + message list) \<times> nat \<times> 'x) option"
    and api :: "(nat \<times> 'x) apiCall" and cb lid cid acc lastId w y
  assume IH: "\<And>api cb lid cid acc lastId w y. f api cb lid cid acc lastId w = Some y \<Longrightarrow> api \<noteq> paged_api stalled_page"
  assume step: "(case api w lid (GetMessages cid (cursor_param lastId)) of
        (Inl err, w1) \<Rightarrow> Some (Inl err, w1)
      | (Inr d, w1) \<Rightarrow>
          (case messages_batch_flag d of
             Inl err \<Rightarrow> Some (Inl err, w1)
           | Inr batch \<Rightarrow>
               (let messages' = acc @ batch;
                    w2 = notify cb (PMessages cid (length messages')) w1
                in if batch = [] \<or> \<not> truthy (data_nextPage d)
                   then Some (Inr messages', w2)
                   else f api cb lid cid messages'
                          (js_or (data_lastMessageId d) (msg_id (last batch))) w2))) = Some y"
  show "api \<noteq> paged_api stalled_page"
  proof
    assume a: "api = paged_api stalled_page"
    from step have "\<exists>acc' l' w'. f api cb lid cid acc' l' w' = Some y"
      unfolding a
      by (simp add: paged_api_def stalled_page_def blank_data_def messages_batch_flag_def Let_def
               del: split_paired_Ex) blast
    with IH a show False by blast
  qed
qed

lemma msg_flag_diverges:
  "fetchAllMessages_flag (paged_api stalled_page) cb lid cid w = None"
  unfolding fetchAllMessages_flag_def
  using msg_flag_diverges_aux by (metis not_Some_eq)

lemmas stalled_defs = paged_api_def stalled_page_def stalled_cursor_def blank_data_def
  conversations_batch_def conversations_nextId_def messages_batch_def messages_nextId_def
  cursor_param_def js_or_def notify_def blank_message_def Let_def numeral_3_eq_3

lemma guarded_conv_on_stalled:
  "fetchAllConversations (paged_api stalled_page) None ''loc'' ''ct'' (0, ()) =
     Some (Inr (concat (map (\<lambda>j. conversations_batch (stalled_page j)) [0, 1, 2])), (3, ()))"
  unfolding fetchAllConversations_def
  apply (subst fetchAllConversations_loop.simps, simp add: stalled_defs)
  apply (subst fetchAllConversations_loop.simps, simp add: stalled_defs)
  apply (subst fetchAllConversations_loop.simps, simp add: stalled_defs)
  done

lemma guarded_msg_on_stalled:
  "fetchAllMessages (paged_api stalled_page) None ''loc'' (Some ''c'') (0, ()) =
     Some (Inr (concat (map (\<lambda>j. messages_batch (stalled_page j)) [0, 1, 2])), (3, ()))"
  unfolding fetchAllMessages_def
  apply (subst fetchAllMessages_loop.simps, simp add: stalled_defs)
  apply (subst fetchAllMessages_loop.simps, simp add: stalled_defs)
  apply (subst fetchAllMessages_loop.simps, simp add: stalled_defs)
  done

text \<open>
  C1. Pagination is to end once the cursor stops changing, even when the upstream
  never signals the last page. On the mock upstream of the test (a constant cursor
  after two pages, the has-next-page flag always set, never an empty batch) the
  revision of \<^verbatim>\<open>fetchAllConversations\<close> and \<^verbatim>\<open>fetchAllMessages\<close> that leaves its
  loop on the flag never returns, while the revision with the cursor guard returns
  the three pages it has read.
\<close>

theorem flag_pagination_never_returns:
  "fetchAllConversations_flag (paged_api stalled_page) None ''loc'' ''ct'' (0, ()) = None \<and>
   fetchAllMessages_flag (paged_api stalled_page) None ''loc'' (Some ''c'') (0, ()) = None \<and>
   fetchAllConversations (paged_api stalled_page) None ''loc'' ''ct'' (0, ()) =
     Some (Inr (concat (map (\<lambda>j. conversations_batch (stalled_page j)) [0, 1, 2])), (3, ())) \<and>
   fetchAllMessages (paged_api stalled_page) None ''loc'' (Some ''c'') (0, ()) =
     Some (Inr (concat (map (\<lambda>j. messages_batch (stalled_page j)) [0, 1, 2])), (3, ()))"
  using conv_flag_diverges[of None "''loc''" "''ct''" "(0, ())"]
        msg_flag_diverges[of None "''loc''" "Some ''c''" "(0, ())"]
        guarded_conv_on_stalled guarded_msg_on_stalled
  by simp

section \<open>Aggregation\<close>

text \<open>The sort of stage 4 orders by timestamp, keeps every element and is stable.\<close>

lemma insert_by_mset: "mset (insert_by cmp x xs) = add_mset x (mset xs)"
  by (induction xs) auto

lemma array_sort_mset: "mset (array_sort cmp xs) = mset xs"
  unfolding array_sort_def by (induction xs) (auto simp: insert_by_mset)

lemma insert_by_set: "set (insert_by cmp x xs) = insert x (set xs)"
  by (induction xs) auto

lemma array_sort_set: "set (array_sort cmp xs) = set xs"
  unfolding array_sort_def by (induction xs) (auto simp: insert_by_set)

lemma byDateAdded_dated:
  "dated a \<Longrightarrow> dated b \<Longrightarrow> sort_compare byDateAdded a b = timestamp a - timestamp b"
  by (auto simp: sort_compare_def byDateAdded_def dated_def timestamp_def)

lemma insert_by_sorted:
  "dated x \<Longrightarrow> list_all dated xs \<Longrightarrow> sorted (map timestamp xs) \<Longrightarrow>
   sorted (map timestamp (insert_by byDateAdded x xs))"
  by (induction xs) (auto simp: byDateAdded_dated insert_by_set list_all_iff)

lemma array_sort_sorted:
  "list_all dated xs \<Longrightarrow> sorted (map timestamp (array_sort byDateAdded xs))"
proof (induction xs)
  case Nil
  then show ?case by (simp add: array_sort_def)
next
  case (Cons x xs)
  have unf: "array_sort byDateAdded (x # xs) = insert_by byDateAdded x (array_sort byDateAdded xs)"
    by (simp add: array_sort_def)
  have d: "list_all dated (array_sort byDateAdded xs)"
    using Cons.prems by (simp add: list_all_iff array_sort_set)
  show ?case
    unfolding unf using Cons d by (intro insert_by_sorted) simp_all
qed

lemma chronological_dated:
  "list_all dated ms \<Longrightarrow> chronological ms \<longleftrightarrow> sorted (map timestamp ms)"
proof -
  assume d: "list_all dated ms"
  have e: "\<not> out_of_order a b \<longleftrightarrow> timestamp a \<le> timestamp b"
    if "a \<in> set ms" "b \<in> set ms" for a b
  proof -
    from d that have "dated a" "dated b" by (simp_all add: list_all_iff)
    then obtain x y where "dateAdded a = Some x" "dateAdded b = Some y"
      unfolding dated_def by blast
    then show ?thesis by (auto simp: out_of_order_def timestamp_def)
  qed
  have "sorted_wrt (\<lambda>a b. \<not> out_of_order a b) ms \<longleftrightarrow>
        sorted_wrt (\<lambda>a b. timestamp a \<le> timestamp b) ms"
  proof
    assume "sorted_wrt (\<lambda>a b. \<not> out_of_order a b) ms"
    then show "sorted_wrt (\<lambda>a b. timestamp a \<le> timestamp b) ms"
      by (rule sorted_wrt_mono_rel[rotated]) (simp add: e)
  next
    assume "sorted_wrt (\<lambda>a b. timestamp a \<le> timestamp b) ms"
    then show "sorted_wrt (\<lambda>a b. \<not> out_of_order a b) ms"
      by (rule sorted_wrt_mono_rel[rotated]) (simp add: e)
  qed
  then show ?thesis by (simp add: chronological_def sorted_map)
qed

lemma insert_by_filter_other:
  "\<not> P x \<Longrightarrow> filter P (insert_by cmp x xs) = filter P xs"
  by (induction xs) auto

lemma insert_by_filter_same:
  "dated x \<Longrightarrow> list_all dated xs \<Longrightarrow> sorted (map timestamp xs) \<Longrightarrow>
   filter (\<lambda>m. dateAdded m = dateAdded x) (insert_by byDateAdded x xs) =
   x # filter (\<lambda>m. dateAdded m = dateAdded x) xs"
proof (induction xs)
  case Nil
  then show ?case by simp
next
  case (Cons y ys)
  show ?case
  proof (cases "sort_compare byDateAdded x y \<le> 0")
    case True
    then show ?thesis by simp
  next
    case False
    then have "timestamp y < timestamp x"
      using Cons.prems by (simp add: byDateAdded_dated)
    then have "dateAdded y \<noteq> dateAdded x" by (auto simp: timestamp_def)
    with Cons False show ?thesis by simp
  qed
qed

lemma array_sort_stable:
  "list_all dated xs \<Longrightarrow>
   filter (\<lambda>m. dateAdded m = t) (array_sort byDateAdded xs) = filter (\<lambda>m. dateAdded m = t) xs"
proof (induction xs)
  case Nil
  then show ?case by (simp add: array_sort_def)
next
  case (Cons x xs)
  have dx: "dated x" and dxs: "list_all dated xs" using Cons.prems by simp_all
  have s: "sorted (map timestamp (array_sort byDateAdded xs))" by (rule array_sort_sorted[OF dxs])
  have d: "list_all dated (array_sort byDateAdded xs)"
    using dxs by (simp add: list_all_iff array_sort_set)
  have unf: "array_sort byDateAdded (x # xs) = insert_by byDateAdded x (array_sort byDateAdded xs)"
    by (simp add: array_sort_def)
  show ?case
  proof (cases "dateAdded x = t")
    case True
    then show ?thesis using insert_by_filter_same[OF dx d s] Cons.IH[OF dxs] unf by simp
  next
    case False
    then show ?thesis
      using insert_by_filter_other[of "\<lambda>m. dateAdded m = t" x] Cons.IH[OF dxs] unf by simp
  qed
qed

lemma fetchContactHistory_Inr:
  "fetchContactHistory api cb lid cid w = Some (Inr result, w') \<longleftrightarrow>
     (\<exists>fetched. collectHistory api cb lid cid w = Some (Inr fetched, w') \<and>
                result = array_sort byDateAdded fetched)"
  unfolding fetchContactHistory_def
  by (auto split: option.splits sum.splits prod.splits)

lemma fetchContactHistory_Inl:
  "fetchContactHistory api cb lid cid w = Some (Inl e, w') \<longleftrightarrow>
     collectHistory api cb lid cid w = Some (Inl e, w')"
  unfolding fetchContactHistory_def
  by (auto split: option.splits sum.splits prod.splits)

subsection \<open>The small upstream, evaluated\<close>

lemmas demo_defs = demo_api_def blank_data_def conversations_batch_def conversations_nextId_def
  messages_batch_def messages_nextId_def cursor_param_def js_or_def Let_def
  demo_conversation_def

lemma demo_conversations:
  "fetchAllConversations (demo_api msgs) cb lid cid w =
     Some (Inr [demo_conversation],
           notify cb (PConversations 1) (notify cb (PConversations 1) w))"
  unfolding fetchAllConversations_def
  apply (subst fetchAllConversations_loop.simps, simp add: demo_defs)
  apply (subst fetchAllConversations_loop.simps, simp add: demo_defs)
  done

lemma demo_messages:
  assumes "msgs \<noteq> []" "truthy_str (msg_id (last msgs))"
  shows "fetchAllMessages (demo_api msgs) cb lid k w =
     Some (Inr msgs, notify cb (PMessages k (length msgs)) (notify cb (PMessages k (length msgs)) w))"
proof -
  from assms(2) obtain c where c: "msg_id (last msgs) = Some c" "c \<noteq> []"
    by (cases "msg_id (last msgs)") auto
  show ?thesis
    unfolding fetchAllMessages_def using assms(1) c
    apply (subst fetchAllMessages_loop.simps, simp add: demo_defs)
    apply (subst fetchAllMessages_loop.simps, simp add: demo_defs)
    done
qed

lemma demo_collectMessages:
  "collectMessages (demo_api demo_fetched) None lid cid w = Some (Inr demo_fetched, w)"
  unfolding collectMessages_def
  by (simp add: demo_conversations demo_messages demo_fetched_def demo_call_def blank_message_def
        notify_def demo_conversation_def)

lemma demo_callMessages: "callMessages demo_fetched = [1, 2, 3]"
  by (simp add: callMessages_def isCompletedCall_def demo_fetched_def demo_sms_def demo_call_def
        blank_message_def upt_rec)

lemma demo_collectHistory:
  "collectHistory (demo_api demo_fetched) None lid cid w =
     Some (Inr [demo_sms, (demo_call ''m2'')\<lparr>transcription := Some (JStr ''hello'')\<rparr>,
                demo_call ''m3'', demo_call ''m4''], w)"
  unfolding collectHistory_def
  by (simp add: demo_collectMessages demo_callMessages)
     (simp add: demo_fetched_def fetchTranscription_def demo_api_def blank_data_def notify_def
        demo_sms_def demo_call_def blank_message_def)

lemma demo_history:
  "fetchContactHistory (demo_api demo_fetched) None lid cid w =
     Some (Inr [(demo_call ''m2'')\<lparr>transcription := Some (JStr ''hello'')\<rparr>,
                demo_call ''m3'', demo_call ''m4'', demo_sms], w)"
  unfolding fetchContactHistory_def
  by (simp add: demo_collectHistory)
     (simp add: array_sort_def sort_compare_def byDateAdded_def demo_sms_def demo_call_def
        blank_message_def)

lemma demo_undated:
  "fetchContactHistory (demo_api undated_history) None lid cid w = Some (Inr undated_history, w)"
proof -
  have c: "collectMessages (demo_api undated_history) None lid cid w = Some (Inr undated_history, w)"
    unfolding collectMessages_def
    by (simp add: demo_conversations demo_messages undated_history_def demo_sms_def
          blank_message_def notify_def demo_conversation_def)
  have k: "callMessages undated_history = []"
    by (simp add: callMessages_def isCompletedCall_def undated_history_def demo_sms_def
          blank_message_def upt_rec)
  show ?thesis
    unfolding fetchContactHistory_def collectHistory_def
    by (simp add: c k)
       (simp add: array_sort_def sort_compare_def byDateAdded_def undated_history_def)
qed

text \<open>
  C3, as the code has it. When the timestamp of every message is a valid date, the
  sequence the aggregator returns is ascending by timestamp, and it is the
  accumulated sequence rearranged so that messages of equal timestamp keep their
  fetch order.
\<close>

theorem fetchContactHistory_sorted_stable:
  assumes "fetchContactHistory api onProgress lid cid w = Some (Inr result, w')"
      and "list_all dated result"
  shows "sorted (map timestamp result) \<and> chronological result \<and>
         (\<exists>fetched. collectHistory api onProgress lid cid w = Some (Inr fetched, w') \<and>
            mset result = mset fetched \<and>
            (\<forall>t. filter (\<lambda>m. dateAdded m = t) result = filter (\<lambda>m. dateAdded m = t) fetched))"
proof -
  from assms(1) obtain fetched where
    f: "collectHistory api onProgress lid cid w = Some (Inr fetched, w')"
       "result = array_sort byDateAdded fetched"
    by (auto simp: fetchContactHistory_Inr)
  have d: "list_all dated fetched"
    using assms(2) f(2) by (simp add: list_all_iff array_sort_set)
  have s: "sorted (map timestamp result)"
    unfolding f(2) by (rule array_sort_sorted[OF d])
  have "chronological result"
    using s assms(2) by (simp add: chronological_dated)
  with s f d show ?thesis
    by (auto simp: array_sort_mset array_sort_stable)
qed

text \<open>
  The small upstream: the two calls of timestamp 10 come first, in fetch order, then
  the SMS of timestamp 30.
\<close>

theorem fetchContactHistory_sorted_stable_witness:
  "sorted (map timestamp [(demo_call ''m2'')\<lparr>transcription := Some (JStr ''hello'')\<rparr>,
                          demo_call ''m3'', demo_call ''m4'', demo_sms]) \<and>
   chronological [(demo_call ''m2'')\<lparr>transcription := Some (JStr ''hello'')\<rparr>,
                  demo_call ''m3'', demo_call ''m4'', demo_sms] \<and>
   (\<exists>fetched. collectHistory (demo_api demo_fetched) None ''loc'' ''ct'' () = Some (Inr fetched, ()) \<and>
      mset [(demo_call ''m2'')\<lparr>transcription := Some (JStr ''hello'')\<rparr>,
            demo_call ''m3'', demo_call ''m4'', demo_sms] = mset fetched \<and>
      (\<forall>t. filter (\<lambda>m. dateAdded m = t)
              [(demo_call ''m2'')\<lparr>transcription := Some (JStr ''hello'')\<rparr>,
               demo_call ''m3'', demo_call ''m4'', demo_sms] =
            filter (\<lambda>m. dateAdded m = t) fetched))"
proof -
  have d: "list_all dated [(demo_call ''m2'')\<lparr>transcription := Some (JStr ''hello'')\<rparr>,
                           demo_call ''m3'', demo_call ''m4'', demo_sms]"
    by (simp add: dated_def demo_call_def demo_sms_def)
  show ?thesis by (rule fetchContactHistory_sorted_stable[OF demo_history d])
qed

text \<open>
  C3, as it is written, speaks of every history. In a history with a message whose
  \<^verbatim>\<open>dateAdded\<close> is missing, the comparator is \<^verbatim>\<open>NaN\<close> for that message and
  either neighbour, and the sequence returned has the message of 3 January in front
  of the message of 1 January.
\<close>

theorem undated_message_breaks_order:
  "fetchContactHistory (demo_api undated_history) None ''loc'' ''ct'' () =
     Some (Inr undated_history, ()) \<and>
   map dateAdded undated_history = [Some (2 * DAY_MS), None, Some 0] \<and>
   \<not> chronological undated_history"
  by (simp add: demo_undated)
     (simp add: undated_history_def chronological_def out_of_order_def DAY_MS_def)

lemma attached_refl: "attached m m"
  by (simp add: attached_def)

lemma attached_again:
  "attached m m' \<Longrightarrow> isCompletedCall m \<Longrightarrow> truthy t \<Longrightarrow> attached m (m'\<lparr>transcription := Some t\<rparr>)"
  by (auto simp: attached_def)

lemma fetchTranscription_cases:
  "fetchTranscription api lid mid w = (r, w') \<Longrightarrow>
     (\<exists>t. r = Inr t) \<or> (\<exists>e. r = Inl e)"
  by (cases r) auto

lemma fetchTranscriptions_frame:
  "fetchTranscriptions api cb lid n i ks ms w = (Inr result, w') \<Longrightarrow>
   list_all2 attached fetched ms \<Longrightarrow>
   \<forall>k \<in> set ks. k < length fetched \<and> isCompletedCall (fetched ! k) \<Longrightarrow>
   list_all2 attached fetched result"
proof (induction ks arbitrary: ms w i)
  case Nil
  then show ?case by simp
next
  case (Cons k ks)
  obtain r w1 where ft: "fetchTranscription api lid (msg_id (ms ! k)) w = (r, w1)"
    by (cases "fetchTranscription api lid (msg_id (ms ! k)) w")
  show ?case
  proof (cases r)
    case (Inl e)
    with Cons.prems(1) ft show ?thesis by simp
  next
    case (Inr t)
    let ?ms' = "if truthy t then ms[k := (ms ! k)\<lparr>transcription := Some t\<rparr>] else ms"
    have k: "k < length fetched" "isCompletedCall (fetched ! k)" using Cons.prems(3) by auto
    have "attached (fetched ! k) (ms ! k)"
      using Cons.prems(2) k(1) by (simp add: list_all2_nthD)
    then have "list_all2 attached fetched ?ms'"
      using Cons.prems(2) k by (auto intro!: list_all2_update_cong[where xs = fetched and i = k and x = "fetched ! k", simplified] attached_again)
    moreover have "fetchTranscriptions api cb lid n (i + 1) ks ?ms' (notify cb (PTranscriptions n (i + 1)) w1) = (Inr result, w')"
      using Cons.prems(1) ft Inr by (simp add: Let_def)
    ultimately show ?thesis using Cons.IH Cons.prems(3) by auto
  qed
qed

lemma list_all2_attached_erase:
  "list_all2 attached xs ys \<Longrightarrow>
     map (\<lambda>m. m\<lparr>transcription := None\<rparr>) ys = map (\<lambda>m. m\<lparr>transcription := None\<rparr>) xs"
  by (induction rule: list_all2_induct) (auto simp: attached_def)

lemma callMessages_sound:
  "\<forall>k \<in> set (callMessages fetched). k < length fetched \<and> isCompletedCall (fetched ! k)"
  by (auto simp: callMessages_def)

lemma collectHistory_Inr:
  "collectHistory api cb lid cid w = Some (Inr updated, w') \<longleftrightarrow>
     (\<exists>fetched w1. collectMessages api cb lid cid w = Some (Inr fetched, w1) \<and>
        fetchTranscriptions api cb lid (length (callMessages fetched)) 0 (callMessages fetched) fetched w1
          = (Inr updated, w'))"
  unfolding collectHistory_def
  by (auto split: option.splits sum.splits prod.splits)

text \<open>
  C9. The sequence the aggregator returns is the sorted form of the fetched messages,
  each either untouched or, for a completed call with a direction, given a truthy
  transcription; with the transcription put aside, nothing differs from what was
  fetched.
\<close>

theorem aggregation_only_attaches_transcriptions:
  assumes "fetchContactHistory api onProgress lid cid w = Some (Inr result, w')"
  shows "\<exists>fetched w1 updated.
           collectMessages api onProgress lid cid w = Some (Inr fetched, w1) \<and>
           list_all2 attached fetched updated \<and>
           map (\<lambda>m. m\<lparr>transcription := None\<rparr>) updated =
             map (\<lambda>m. m\<lparr>transcription := None\<rparr>) fetched \<and>
           result = array_sort byDateAdded updated"
proof -
  from assms obtain updated where
    u: "collectHistory api onProgress lid cid w = Some (Inr updated, w')"
       "result = array_sort byDateAdded updated"
    by (auto simp: fetchContactHistory_Inr)
  from u(1) obtain fetched w1 where
    f: "collectMessages api onProgress lid cid w = Some (Inr fetched, w1)"
       "fetchTranscriptions api onProgress lid (length (callMessages fetched)) 0 (callMessages fetched) fetched w1
          = (Inr updated, w')"
    by (auto simp: collectHistory_Inr)
  have "list_all2 attached fetched fetched"
    by (simp add: list_all2_same attached_refl)
  from fetchTranscriptions_frame[OF f(2) this callMessages_sound]
  have "list_all2 attached fetched updated" .
  with f(1) u(2) list_all2_attached_erase[OF this] show ?thesis by blast
qed












lemma attached_fields: "attached m m' \<Longrightarrow> m'\<lparr>transcription := transcription m\<rparr> = m"
  by (auto simp: attached_def)












lemma notify_demo_at: "notify (mirror_progress demo_job) p (demo_at q) = demo_at p"
  by (simp add: notify_def mirror_progress_def update_job_def demo_at_def demo_server_def demo_job_def)



lemma demo_failing_first:
  "fetchTranscriptions (demo_api demo_failing) (mirror_progress demo_job) ''loc'' 3 0 [1] demo_failing
     (demo_at (PFetchingMessages 1 1 (Some 4))) =
   (Inr (demo_failing[1 := (demo_call ''m2'')\<lparr>transcription := Some (JStr ''hello'')\<rparr>]),
    demo_at (PTranscriptions 3 1))"
  by (simp add: fetchTranscription_def demo_api_def blank_data_def notify_demo_at demo_failing_def
        demo_call_def blank_message_def eval_nat_numeral)





lemma demo_fetched_second:
  "fetchTranscriptions (demo_api demo_fetched) (mirror_progress demo_job) ''loc'' 3 0 [1, 2] demo_fetched
     (demo_at (PFetchingMessages 1 1 (Some 4))) =
   (Inr (demo_fetched[1 := (demo_call ''m2'')\<lparr>transcription := Some (JStr ''hello'')\<rparr>]),
    demo_at (PTranscriptions 3 2))"
  by (simp add: fetchTranscription_def demo_api_def blank_data_def notify_demo_at demo_fetched_def
        demo_call_def blank_message_def eval_nat_numeral)





text \<open>
  The small upstream: only the call \<^verbatim>\<open>m2\<close> gains a transcription.
\<close>

theorem aggregation_only_attaches_transcriptions_witness:
  "\<exists>fetched w1 updated.
      collectMessages (demo_api demo_fetched) None ''loc'' ''ct'' () = Some (Inr fetched, w1) \<and>
      list_all2 attached fetched updated \<and>
      map (\<lambda>m. m\<lparr>transcription := None\<rparr>) updated =
        map (\<lambda>m. m\<lparr>transcription := None\<rparr>) fetched \<and>
      [(demo_call ''m2'')\<lparr>transcription := Some (JStr ''hello'')\<rparr>, demo_call ''m3'',
       demo_call ''m4'', demo_sms] = array_sort byDateAdded updated"
  by (rule aggregation_only_attaches_transcriptions[OF demo_history])


section \<open>Date filter\<close>

lemma dateFilter_filter: "dateFilter tz dr messages = filter (retained tz dr) messages"
  by (cases "startDate dr"; cases "endDate dr")
     (simp_all add: dateFilter_def retained_def[abs_def] Let_def conj_commute)

lemma dateFilter_no_bounds: "dateFilter tz \<lparr>startDate = None, endDate = None\<rparr> messages = messages"
  by (simp add: dateFilter_def)

lemma dateFilter_sorted:
  "chronological messages \<Longrightarrow> chronological (dateFilter tz dr messages)"
  by (simp add: dateFilter_filter chronological_def sorted_wrt_filter)

lemma setHours_DateOnly:
  assumes "0 \<le> tz" "tz < DAY_MS"
  shows "setHours tz (new_Date (DateOnly d)) h m sec ms = Some (local_instant tz d h m sec ms)"
proof -
  have "(d * DAY_MS + tz) div DAY_MS = d"
    using assms by (simp add: DAY_MS_def div_pos_pos_trivial)
  then show ?thesis by (simp add: setHours_def new_Date_def local_instant_def)
qed

lemma setHours_DateOnly_west:
  assumes "- DAY_MS \<le> tz" "tz < 0"
  shows "setHours tz (new_Date (DateOnly d)) h m sec ms = Some (local_instant tz (d - 1) h m sec ms)"
proof -
  have e: "d * DAY_MS + tz = (tz + DAY_MS) + (d - 1) * DAY_MS" by (simp add: algebra_simps)
  have "((tz + DAY_MS) + (d - 1) * DAY_MS) div DAY_MS = (d - 1) + (tz + DAY_MS) div DAY_MS"
    by (simp add: DAY_MS_def)
  also have "(tz + DAY_MS) div DAY_MS = 0"
    using assms by (simp add: DAY_MS_def div_pos_pos_trivial)
  finally have "(d * DAY_MS + tz) div DAY_MS = d - 1" unfolding e by simp
  then show ?thesis by (simp add: setHours_def new_Date_def local_instant_def)
qed

lemma retained_east:
  assumes "0 \<le> tz" "tz < DAY_MS"
  shows "retained tz (day_range first_day last_day) m \<longleftrightarrow> in_window tz first_day last_day m"
  by (cases first_day; cases last_day)
     (auto simp: retained_def in_window_def day_range_def setHours_DateOnly[OF assms] date_ge_def date_le_def
           split: option.splits)

lemma dateFilter_east:
  assumes "0 \<le> tz" "tz < DAY_MS"
  shows "dateFilter tz (day_range first_day last_day) messages = filter (in_window tz first_day last_day) messages"
  by (simp add: dateFilter_filter retained_east[OF assms] cong: filter_cong)

lemma dateFilter_west:
  assumes "- DAY_MS \<le> tz" "tz < 0"
  shows "dateFilter tz (day_range first_day last_day) messages =
         filter (in_window tz (map_option (\<lambda>d. d - 1) first_day) (map_option (\<lambda>d. d - 1) last_day)) messages"
proof -
  have "retained tz (day_range first_day last_day) m \<longleftrightarrow>
        in_window tz (map_option (\<lambda>d. d - 1) first_day) (map_option (\<lambda>d. d - 1) last_day) m" for m
    by (cases first_day; cases last_day)
       (auto simp: retained_def in_window_def day_range_def setHours_DateOnly_west[OF assms] date_ge_def date_le_def
             split: option.splits)
  then show ?thesis by (simp add: dateFilter_filter cong: filter_cong)
qed

text \<open>
  C5. Applying the date filter twice with the same bounds gives the same sequence as
  applying it once, whatever the messages, the bounds and the zone of the process.
\<close>

theorem dateFilter_idempotent:
  "dateFilter tz dr (dateFilter tz dr messages) = dateFilter tz dr messages"
  by (simp add: dateFilter_filter)

text \<open>
  C4. A message is to be retained exactly when it lies between 00:00:00.000 of the
  start date and 23:59:59.999 of the end date. The filter reads a calendar date as
  midnight UTC and then sets the time of day on the local clock: east of UTC and
  up to a day ahead that is the window of the dates given (\<open>dateFilter_east\<close>), west of
  UTC it is the window of the day before (\<open>dateFilter_west\<close>). In a process five
  hours behind UTC, asked for 2024-01-05 alone (day 19727), the filter keeps the
  message of 2024-01-04 12:00 local time and drops the one of 2024-01-05 12:00; the
  window of that date holds the second and not the first, and a process on UTC keeps
  the second and not the first. Order is kept in every zone (\<open>dateFilter_sorted\<close>).
\<close>

theorem dateFilter_west_of_utc:
  "dateFilter (- 18000000) (day_range (Some 19727) (Some 19727))
     [message_at (19726 * DAY_MS + 61200000), message_at (19727 * DAY_MS + 61200000)] =
     [message_at (19726 * DAY_MS + 61200000)] \<and>
   filter (in_window (- 18000000) (Some 19727) (Some 19727))
     [message_at (19726 * DAY_MS + 61200000), message_at (19727 * DAY_MS + 61200000)] =
     [message_at (19727 * DAY_MS + 61200000)] \<and>
   dateFilter 0 (day_range (Some 19727) (Some 19727))
     [message_at (19726 * DAY_MS + 61200000), message_at (19727 * DAY_MS + 61200000)] =
     [message_at (19727 * DAY_MS + 61200000)]"
  by (simp add: dateFilter_def day_range_def setHours_def new_Date_def date_ge_def date_le_def
        message_at_def blank_message_def DAY_MS_def in_window_def local_instant_def)
section \<open>Reaper\<close>

lemma cleanup_entry_jobs:
  "jobs (cleanup_entry now (k, j) s) = (if expired now j then map_delete k (jobs s) else jobs s)"
  by (simp add: cleanup_entry_def expired_def Let_def)

lemma cleanup_entry_files:
  "files (fs (cleanup_entry now (k, j) s)) =
     (if expired now j \<and> truthy_str (filePath j) then (files (fs s))(the (filePath j) := None)
      else files (fs s))"
  by (auto simp: cleanup_entry_def expired_def Let_def unlinkSync_def existsSync_def fun_upd_idem_iff)

lemma fold_cleanup_jobs_gone:
  "(k, j) \<in> set es \<Longrightarrow> expired now j \<Longrightarrow> k \<notin> fst ` set (jobs (fold (cleanup_entry now) es s))"
proof (induction es arbitrary: s)
  case Nil
  then show ?case by simp
next
  case (Cons e es)
  have keep: "k \<notin> fst ` set (jobs s') \<Longrightarrow> k \<notin> fst ` set (jobs (fold (cleanup_entry now) es s'))" for s'
  proof (induction es arbitrary: s')
    case Nil
    then show ?case by simp
  next
    case (Cons e' es')
    obtain k' j' where e': "e' = (k', j')" by (cases e')
    have "k \<notin> fst ` set (jobs (cleanup_entry now e' s'))"
      using Cons.prems unfolding e' by (auto simp: cleanup_entry_jobs map_delete_def)
    then show ?case using Cons.IH by simp
  qed
  show ?case
  proof (cases "e = (k, j)")
    case True
    have "k \<notin> fst ` set (jobs (cleanup_entry now e s))"
      unfolding True using Cons.prems(2) by (auto simp: cleanup_entry_jobs map_delete_def)
    then show ?thesis using keep by simp
  next
    case False
    then have "(k, j) \<in> set es" using Cons.prems(1) by simp
    then show ?thesis using Cons.IH Cons.prems(2) by simp
  qed
qed

lemma fold_cleanup_files_gone:
  "(k, j) \<in> set es \<Longrightarrow> expired now j \<Longrightarrow> filePath j = Some p \<Longrightarrow> p \<noteq> [] \<Longrightarrow>
     files (fs (fold (cleanup_entry now) es s)) p = None"
proof (induction es arbitrary: s)
  case Nil
  then show ?case by simp
next
  case (Cons e es)
  have keep: "files (fs s') p = None \<Longrightarrow> files (fs (fold (cleanup_entry now) es s')) p = None" for s'
  proof (induction es arbitrary: s')
    case Nil
    then show ?case by simp
  next
    case (Cons e' es')
    obtain k' j' where e': "e' = (k', j')" by (cases e')
    have "files (fs (cleanup_entry now e' s')) p = None"
      using Cons.prems unfolding e' by (simp add: cleanup_entry_files)
    then show ?case using Cons.IH by simp
  qed
  show ?case
  proof (cases "e = (k, j)")
    case True
    have "files (fs (cleanup_entry now e s)) p = None"
      unfolding True using Cons.prems by (simp add: cleanup_entry_files)
    then show ?thesis using keep by simp
  next
    case False
    then have "(k, j) \<in> set es" using Cons.prems(1) by simp
    then show ?thesis using Cons.IH Cons.prems by simp
  qed
qed

lemma map_of_None_fst: "k \<notin> fst ` set ps \<Longrightarrow> map_of ps k = None"
  by (simp add: map_of_eq_None_iff)

text \<open>
  C8. After a sweep of the reaper, a job in the registry that is older than the
  retention window of one hour is gone, whatever its status: its record is no longer
  in the registry, so the status route and the download route answer 404 for its id,
  and the file its \<^verbatim>\<open>filePath\<close> names is no longer on disk.
\<close>

theorem cleanupJobs_removes_expired:
  assumes "map_of (jobs s) k = Some j" and "now - createdAt j > JOB_TTL_MS"
  shows "map_of (jobs (cleanupJobs now s)) k = None \<and>
         get_export (cleanupJobs now s) k = JsonError 404 ''Job not found'' \<and>
         get_export_download (cleanupJobs now s) k = JsonError 404 ''Job not found'' \<and>
         (\<forall>p. filePath j = Some p \<and> p \<noteq> [] \<longrightarrow> \<not> existsSync (fs (cleanupJobs now s)) p)"
proof -
  have mem: "(k, j) \<in> set (jobs s)" using assms(1) by (rule map_of_SomeD)
  have ex: "expired now j" using assms(2) by (simp add: expired_def)
  have gone: "map_of (jobs (cleanupJobs now s)) k = None"
    unfolding cleanupJobs_def by (rule map_of_None_fst[OF fold_cleanup_jobs_gone[OF mem ex, where s = s]])
  have "\<forall>p. filePath j = Some p \<and> p \<noteq> [] \<longrightarrow> \<not> existsSync (fs (cleanupJobs now s)) p"
    unfolding cleanupJobs_def existsSync_def
    using fold_cleanup_files_gone[OF mem ex, where s = s] by auto
  with gone show ?thesis by (simp add: get_export_def get_export_download_def)
qed

lemma reaper_jobs:
  "map_of (jobs reaper_server) ''old-done'' = Some old_done"
  "map_of (jobs reaper_server) ''old-running'' = Some old_running"
  by (simp_all add: reaper_server_def)

lemma reaper_ages:
  "3600001 - createdAt old_done > JOB_TTL_MS" "3600001 - createdAt old_running > JOB_TTL_MS"
  by (simp_all add: old_done_def old_running_def demo_job_def JOB_TTL_MS_def)

text \<open>
  The registry with a finished job and a job still processing, both created at 0,
  swept at 3600001: both are gone, and so is the file of the finished one.
\<close>

theorem cleanupJobs_removes_expired_witness:
  "(map_of (jobs (cleanupJobs 3600001 reaper_server)) ''old-done'' = None \<and>
    get_export (cleanupJobs 3600001 reaper_server) ''old-done'' = JsonError 404 ''Job not found'' \<and>
    get_export_download (cleanupJobs 3600001 reaper_server) ''old-done'' = JsonError 404 ''Job not found'' \<and>
    \<not> existsSync (fs (cleanupJobs 3600001 reaper_server)) ''data/exports/a.pdf'') \<and>
   (map_of (jobs (cleanupJobs 3600001 reaper_server)) ''old-running'' = None \<and>
    get_export (cleanupJobs 3600001 reaper_server) ''old-running'' = JsonError 404 ''Job not found'') \<and>
   status old_running = Processing \<and> existsSync (fs reaper_server) ''data/exports/a.pdf''"
proof -
  note A = cleanupJobs_removes_expired[OF reaper_jobs(1) reaper_ages(1)]
  note B = cleanupJobs_removes_expired[OF reaper_jobs(2) reaper_ages(2)]
  have fp: "filePath old_done = Some ''data/exports/a.pdf'' \<and> ''data/exports/a.pdf'' \<noteq> []"
    by (simp add: old_done_def)
  from A have "\<not> existsSync (fs (cleanupJobs 3600001 reaper_server)) ''data/exports/a.pdf''"
    using fp by blast
  moreover have "status old_running = Processing"
    by (simp add: old_running_def demo_job_def)
  moreover have "existsSync (fs reaper_server) ''data/exports/a.pdf''"
    by (simp add: reaper_server_def existsSync_def no_files_def)
  ultimately show ?thesis using A B by blast
qed

section \<open>Document\<close>

lemma run_Nil [simp]: "run [] d = d"
  and run_Cons [simp]: "run (f # ops) d = run ops (f d)"
  and run_if_True [simp]: "run_if True ops d = run ops d"
  and run_if_False [simp]: "run_if False ops d = d"
  by (simp_all add: run_def run_if_def)

lemma shape_moveDown [simp]: "shape (moveDown L k d) = shape d"
  and shape_fontSize [simp]: "shape (fontSize n d) = shape d"
  and shape_font [simp]: "shape (font f d) = shape d"
  by (simp_all add: shape_def moveDown_def fontSize_def font_def)

lemma shape_doc_text [simp]: "current_ok d \<Longrightarrow> shape (doc_text L s d) = put s (shape d)"
  by (simp add: shape_def doc_text_def put_def map_update current_ok_def)

lemma shape_text_continued [simp]: "current_ok d \<Longrightarrow> shape (text_continued s d) = put s (shape d)"
  by (simp add: shape_def text_continued_def put_def map_update current_ok_def)

lemma shape_addPage [simp]: "shape (addPage d) = (fst (shape d) @ [[]], length (fst (shape d)))"
  by (simp add: shape_def addPage_def)

lemma shape_newPage [simp]: "shape (newPage d) = (fst (shape d) @ [[]], length (fst (shape d)))"
  by (simp add: shape_def addPage_def newPage_def)

lemma shape_switchToPage [simp]: "shape (switchToPage i d) = (fst (shape d), i)"
  by (simp add: shape_def switchToPage_def)

lemma ok_moveDown [simp]: "current_ok (moveDown L k d) = current_ok d"
  and ok_fontSize [simp]: "current_ok (fontSize n d) = current_ok d"
  and ok_font [simp]: "current_ok (font f d) = current_ok d"
  and ok_doc_text [simp]: "current_ok (doc_text L s d) = current_ok d"
  and ok_text_continued [simp]: "current_ok (text_continued s d) = current_ok d"
  and ok_addPage [simp]: "current_ok (addPage d)"
  and ok_newPage [simp]: "current_ok (newPage d')"
  and ok_new [simp]: "current_ok new_PDFDocument"
  by (simp_all add: current_ok_def moveDown_def fontSize_def font_def doc_text_def
        text_continued_def addPage_def newPage_def new_PDFDocument_def)

lemma y_addPage [simp]: "doc_y (addPage d) = MARGIN"
  and y_newPage [simp]: "doc_y (newPage d') = MARGIN"
  by (simp_all add: addPage_def newPage_def)

lemma shape_new [simp]: "shape new_PDFDocument = ([[]], 0)"
  by (simp add: shape_def new_PDFDocument_def)

lemma shape_extend [simp]: "shape (pdf_doc.extend d x) = shape d"
  and ok_extend [simp]: "current_ok (pdf_doc.extend d x) = current_ok d"
  by (simp_all add: shape_def current_ok_def pdf_doc.defs)



lemma stat_block_ok [simp]: "current_ok (stat_block L a b d) = current_ok d"
  by (simp add: stat_block_def)

lemma stat_block_shape [simp]:
  "current_ok d \<Longrightarrow> shape (stat_block L a b d) = put b (put a (shape d))"
  by (simp add: stat_block_def)

lemma cover_ok [simp]: "current_ok (renderCoverPage L now c messages d) = current_ok d"
  by (simp add: renderCoverPage_def Let_def run_if_def)

lemma cover_shape:
  assumes "current_ok d"
  shows "shape (renderCoverPage L now c messages d) =
         ((fst (shape d))[snd (shape d) := fst (shape d) ! snd (shape d) @ cover_texts L now c messages],
          snd (shape d))"
proof -
  obtain ps k where sh: "shape d = (ps, k)" by (cases "shape d")
  have k: "k < length ps" using assms sh by (auto simp: shape_def current_ok_def)
  show ?thesis
    using assms k
    by (simp add: renderCoverPage_def Let_def sh cover_texts_def run_if_def)
       (auto simp: put_def)
qed

lemma demo_sms_fields:
  "messageTypeLabel demo_sms = ''SMS''"
  "getMessageBody demo_sms = ''hi''"
  "messageType demo_sms = Some ''SMS''"
  "direction demo_sms = Some ''outbound''"
  "attachments demo_sms = None"
  "dateAdded demo_sms = Some 30"
  by (simp_all add: demo_sms_def blank_message_def messageTypeLabel_def channelLabel_def
        type_labels_def getMessageBody_def js_or_def)

lemma estimatedHeight_demo_sms: "estimatedHeight demo_sms = 96"
  by (simp add: estimatedHeight_def demo_sms_fields)

lemma renderMessage_sms_shape:
  assumes "current_ok d" and "doc_y d = MARGIN" and "needed st demo_sms \<le> 662"
  shows "shape (renderMessage L st brk demo_sms 0 d) =
         put ''hi''
           (put (headerLead st @ formatDate L (Some 30) @ ''  '' @ formatTime L (Some 30) @ headerSep st @ ''SMS'')
              (put (''['' @ outboundLabel st @ '']'') (shape d)))"
  using assms
  by (simp add: renderMessage_def Let_def checkPageBreak_def demo_sms_fields
        renderTextMessage_def renderAttachments_def MARGIN_def PAGE_HEIGHT_def)

text \<open>
  The footer of \<^verbatim>\<open>addPageNumbers\<close> is placed 10 points below the bottom margin, so
  each round of the loop after the first ends on a new page that holds the footer.
\<close>

lemma number_page_pages:
  "pages (number_page L now n i d) =
     (if i = 0 then pages d else pages d @ [[footer_line L now i n]])"
  by (simp add: number_page_def Let_def switchToPage_def fontSize_def font_def text_at_def
        doc_text_def addPage_def footer_line_def PAGE_HEIGHT_def MARGIN_def)

lemma fold_number_page_pages:
  "pages (fold (number_page L now n) [0..<k] d) =
     pages d @ map (\<lambda>i. [footer_line L now i n]) [1..<k]"
proof (induction k)
  case 0
  then show ?case by simp
next
  case (Suc k)
  show ?case
  proof (cases "k = 0")
    case True
    then show ?thesis by (simp add: number_page_pages)
  next
    case False
    then have u: "[Suc 0..<Suc k] = [Suc 0..<k] @ [k]" by simp
    have v: "[0..<Suc k] = [0..<k] @ [k]" by simp
    show ?thesis
      using False Suc unfolding v by (simp add: number_page_pages u del: upt_Suc)
  qed
qed

lemma addPageNumbers_pages:
  "pages (addPageNumbers L now d) =
     pages d @ map (\<lambda>i. [footer_line L now i (length (pages d))]) [1..<length (pages d)]"
proof -
  have "addPageNumbers L now d =
        fold (number_page L now (length (pages d))) [0..<length (pages d)] d"
    by (simp add: addPageNumbers_def number_page_def[abs_def] bufferedPageRange_count_def Let_def)
  then show ?thesis by (simp add: fold_number_page_pages)
qed

lemma plain_one_shape:
  "shape (build_document_plain L now c [demo_sms]) =
     ([cover_texts L now c [demo_sms],
       [''[OUTBOUND]'', ''   '' @ formatDate L (Some 30) @ ''  '' @ formatTime L (Some 30) @ ''  -  SMS'', ''hi'']], 1)"
  by (simp add: build_document_plain_def renderMessages_def cover_shape renderMessage_sms_shape
        put_def style_plain_def)

lemma buffered_one_shape:
  "shape (renderMessages L style_buffered addPage [demo_sms]
            (addPage (renderCoverPage L now c [demo_sms] new_PDFDocument))) =
     ([cover_texts L now c [demo_sms],
       [''['' @ ARROW_RIGHT @ '' OUTBOUND]'',
        ''  '' @ formatDate L (Some 30) @ ''  '' @ formatTime L (Some 30) @ ''  '' @ MIDDLE_DOT @ ''  SMS'', ''hi'']], 1)"
  by (simp add: renderMessages_def cover_shape renderMessage_sms_shape
        put_def style_buffered_def estimatedHeight_demo_sms)

lemma toLocaleString_1: "toLocaleString 1 = ''1''"
  by code_simp

lemma string_of_nat_2: "string_of_nat 2 = ''2''"
  by code_simp

lemma pages_of_shape: "shape d = (ps, k) \<Longrightarrow> map (map snd) (pages d) = ps"
  by (simp add: shape_def)


lemma addPageNumbers_two:
  assumes "map (map snd) (pages d) = [a, b]"
  shows "map (map snd) (pages (addPageNumbers L now d)) = [a, b, [footer_text L now 2 2]]"
proof -
  have n: "length (pages d) = 2"
    using assms by (auto simp: map_eq_Cons_conv)
  have u: "[Suc 0..<2] = [Suc 0]" by (simp add: upt_rec)
  have v: "Suc (Suc 0) = 2" by simp
  show ?thesis
    using assms by (simp add: addPageNumbers_pages n u v footer_line_def)
qed





lemma demo_cover_texts:
  "cover_texts demo_lib 0 demo_contact [demo_sms] =
     [''CONVERSATION EXPORT'', ''Contact'', ''Jane Doe'', ''Total Messages'', ''1'',
      ''Date Range'', ''D '' @ EN_DASH @ '' D'', ''Export Date'', ''F'', ''Channels: SMS'']"
  by (simp add: cover_texts_def demo_contact_def demo_lib_def getMessageStats_def set_add_def
        demo_sms_fields or_default_def toLocaleString_1[unfolded One_nat_def])


text \<open>
  The position of every text on the body page of the one SMS: all of it lies in the
  upper part of the page.
\<close>

lemma renderMessage_sms_page:
  assumes "cur d < length (pages d)" and "pages d ! cur d = []" and "doc_y d = MARGIN"
      and "needed st demo_sms \<le> 662"
  shows "pages (renderMessage demo_lib st brk demo_sms 0 d) ! cur d =
           [(50, ''['' @ outboundLabel st @ '']''),
            (50, headerLead st @ ''D  T'' @ headerSep st @ ''SMS''),
            (65, ''hi'')] \<and>
         doc_y (renderMessage demo_lib st brk demo_sms 0 d) = 80"
  using assms
  by (simp add: renderMessage_def Let_def checkPageBreak_def demo_sms_fields
        renderTextMessage_def renderAttachments_def MARGIN_def PAGE_HEIGHT_def
        fontSize_def font_def text_continued_def doc_text_def moveDown_def demo_lib_def)

lemma last_of_two: "length xs = 2 \<Longrightarrow> last xs = xs ! Suc 0"
  by (auto simp: numeral_2_eq_2 length_Suc_conv)

lemma plain_one_body:
  "last (pages (build_document_plain demo_lib 0 demo_contact [demo_sms])) =
     [(50, ''[OUTBOUND]''), (50, ''   D  T  -  SMS''), (65, ''hi'')]"
proof -
  define D where "D = renderCoverPage demo_lib 0 demo_contact [demo_sms]
                        (pdf_doc.extend new_PDFDocument (pdf_ctx.fields 1 (formatFullDate demo_lib 0)))"
  define d where "d = newPage D"
  have "shape D = ([cover_texts demo_lib 0 demo_contact [demo_sms]], 0)"
    by (simp add: D_def cover_shape)
  then have lenD: "length (pages D) = 1"
    by (auto simp: shape_def map_eq_Cons_conv)
  have d: "cur d < length (pages d)" "pages d ! cur d = []" "doc_y d = MARGIN" "cur d = 1"
    using lenD by (simp_all add: d_def newPage_def addPage_def nth_append)
  have doc: "build_document_plain demo_lib 0 demo_contact [demo_sms] =
             renderMessage demo_lib style_plain newPage demo_sms 0 d"
    by (simp add: build_document_plain_def renderMessages_def D_def d_def)
  have n: "needed style_plain demo_sms \<le> 662" by (simp add: style_plain_def)
  have body: "pages (build_document_plain demo_lib 0 demo_contact [demo_sms]) ! 1 =
                [(50, ''[OUTBOUND]''), (50, ''   D  T  -  SMS''), (65, ''hi'')]"
    using renderMessage_sms_page[OF d(1,2,3) n, of newPage] unfolding doc d(4)
    by (simp add: style_plain_def)
  have "length (pages (build_document_plain demo_lib 0 demo_contact [demo_sms])) = 2"
    using pages_of_shape[OF plain_one_shape[of demo_lib 0 demo_contact]]
    by (auto simp: map_eq_Cons_conv)
  then show ?thesis using body by (simp add: last_of_two)
qed

text \<open>
  C6. Every page after the cover is to carry a footer \<^verbatim>\<open>Page X of N\<close> with the
  export metadata. For a history of one SMS, the revision of \<^verbatim>\<open>generatePDF\<close> that
  counts its pages in \<^verbatim>\<open>ctx\<close> gives the cover and a body page that holds the
  message, in the upper part of the page, and no footer. The revision with
  \<^verbatim>\<open>addPageNumbers\<close> gives the same two pages, the body page again without a
  footer, and a third page that holds nothing but the footer, which reads
  \<^verbatim>\<open>Page 2 of 2\<close>.
\<close>

theorem body_page_carries_no_footer:
  "map (map snd) (pages (build_document_plain demo_lib 0 demo_contact [demo_sms])) =
     [cover_texts demo_lib 0 demo_contact [demo_sms],
      [''[OUTBOUND]'', ''   D  T  -  SMS'', ''hi'']] \<and>
   last (pages (build_document_plain demo_lib 0 demo_contact [demo_sms])) =
     [(50, ''[OUTBOUND]''), (50, ''   D  T  -  SMS''), (65, ''hi'')] \<and>
   map (map snd) (pages (build_document demo_lib 0 demo_contact [demo_sms])) =
     [cover_texts demo_lib 0 demo_contact [demo_sms],
      [''['' @ ARROW_RIGHT @ '' OUTBOUND]'', ''  D  T  '' @ MIDDLE_DOT @ ''  SMS'', ''hi''],
      [footer_text demo_lib 0 2 2]] \<and>
   footer_text demo_lib 0 2 2 =
     ''Page 2 of 2  '' @ MIDDLE_DOT @ ''  Exported from GoHighLevel  '' @ MIDDLE_DOT @ ''  F''"
proof -
  have p: "map (map snd) (pages (build_document_plain demo_lib 0 demo_contact [demo_sms])) =
     [cover_texts demo_lib 0 demo_contact [demo_sms], [''[OUTBOUND]'', ''   D  T  -  SMS'', ''hi'']]"
    using pages_of_shape[OF plain_one_shape[of demo_lib 0 demo_contact]]
    by (simp add: demo_lib_def)
  have "map (map snd) (pages (renderMessages demo_lib style_buffered addPage [demo_sms]
            (addPage (renderCoverPage demo_lib 0 demo_contact [demo_sms] new_PDFDocument)))) =
     [cover_texts demo_lib 0 demo_contact [demo_sms],
      [''['' @ ARROW_RIGHT @ '' OUTBOUND]'', ''  D  T  '' @ MIDDLE_DOT @ ''  SMS'', ''hi'']]"
    using pages_of_shape[OF buffered_one_shape[of demo_lib 0 demo_contact]]
    by (simp add: demo_lib_def)
  from addPageNumbers_two[OF this, of demo_lib 0]
  have b: "map (map snd) (pages (build_document demo_lib 0 demo_contact [demo_sms])) =
     [cover_texts demo_lib 0 demo_contact [demo_sms],
      [''['' @ ARROW_RIGHT @ '' OUTBOUND]'', ''  D  T  '' @ MIDDLE_DOT @ ''  SMS'', ''hi''],
      [footer_text demo_lib 0 2 2]]"
    by (simp add: build_document_def)
  have f: "footer_text demo_lib 0 2 2 =
     ''Page 2 of 2  '' @ MIDDLE_DOT @ ''  Exported from GoHighLevel  '' @ MIDDLE_DOT @ ''  F''"
    by (simp add: footer_text_def string_of_nat_2 demo_lib_def)
  show ?thesis using p plain_one_body b f by blast
qed

end
